theory Spec2Isabelle
  imports Complex_Main "HOL-Library.Signed_Division" "HOL-Library.Monad_Syntax"
begin

section \<open>Anderson acceleration (aa.c): the data model\<close>

text \<open>
  The accelerator of \<^verbatim>\<open>src/src/aa.c\<close> keeps a window of past iterates of a fixed-point
  map and calls five dense linear algebra routines (BLAS and LAPACK) that are not part of
  the repository. The routines are a parameter of the model: a record of functions, each
  taking the operands of the call and returning the new contents of the operand the
  routine writes. Every call of the source passes the increment 1, so the routines are
  modelled at unit stride and the increments are left out. The transposition flags are
  the strings the source passes.

  The scalars (\<^verbatim>\<open>aa_float\<close>) are a type parameter. The integers (\<^verbatim>\<open>aa_int\<close>,
  \<^verbatim>\<open>blas_int\<close>, both declared outside the repository's files) are mathematical integers:
  overflow of a signed C integer is undefined, so the model describes the executions in
  which no counter or index leaves the range of its type.
\<close>

record 'a blas =
  nrm2 :: "int \<Rightarrow> 'a list \<Rightarrow> 'a"
  axpy :: "int \<Rightarrow> 'a \<Rightarrow> 'a list \<Rightarrow> 'a list \<Rightarrow> 'a list"
  gemv :: "string \<Rightarrow> int \<Rightarrow> int \<Rightarrow> 'a \<Rightarrow> 'a list \<Rightarrow> int \<Rightarrow> 'a list \<Rightarrow> 'a \<Rightarrow> 'a list \<Rightarrow> 'a list"
  gesv :: "int \<Rightarrow> int \<Rightarrow> 'a list \<Rightarrow> int \<Rightarrow> int list \<Rightarrow> 'a list \<Rightarrow> int
             \<Rightarrow> 'a list \<times> int list \<times> 'a list \<times> int"
  gemm :: "string \<Rightarrow> string \<Rightarrow> int \<Rightarrow> int \<Rightarrow> int \<Rightarrow> 'a \<Rightarrow> 'a list \<Rightarrow> int \<Rightarrow> 'a list \<Rightarrow> int
             \<Rightarrow> 'a \<Rightarrow> 'a list \<Rightarrow> int \<Rightarrow> 'a list"

text \<open>
  \<^verbatim>\<open>struct ACCEL_WORK\<close>. A pointer field is \<open>None\<close> when the pointer is null and
  \<open>Some\<close> of the buffer's contents otherwise. The fields carry the prefix \<open>aw_\<close>, so that
  \<open>x\<close>, \<open>f\<close>, \<open>k\<close> and \<open>l\<close> stay free for variables.
\<close>

record 'a AaWork =
  aw_type1 :: int
  aw_k :: int
  aw_l :: int
  aw_iter :: int
  aw_x :: "'a list option"
  aw_f :: "'a list option"
  aw_g :: "'a list option"
  aw_g_prev :: "'a list option"
  aw_y :: "'a list option"
  aw_s :: "'a list option"
  aw_d :: "'a list option"
  aw_Y :: "'a list option"
  aw_S :: "'a list option"
  aw_D :: "'a list option"
  aw_M :: "'a list option"
  aw_work :: "'a list option"
  aw_ipiv :: "int list option"

text \<open>
  \<^verbatim>\<open>memcpy(dst + off, src, n * sizeof(aa_float))\<close>: the contents of the destination
  buffer afterwards. The result is \<open>None\<close> where the C call is undefined: a null
  destination, or a range that leaves either buffer.
\<close>

definition memcpy :: "'a list option \<Rightarrow> int \<Rightarrow> 'a list \<Rightarrow> int \<Rightarrow> 'a list option" where
  "memcpy dst off src n =
     (case dst of
        None \<Rightarrow> None
      | Some d \<Rightarrow>
          if 0 \<le> off \<and> 0 \<le> n \<and> nat off + nat n \<le> length d \<and> nat n \<le> length src
          then Some (take (nat off) d @ take (nat n) src @ drop (nat off + nat n) d)
          else None)"

text \<open>
  \<^verbatim>\<open>calloc(n, size)\<close>: a zero-filled buffer of \<open>n\<close> elements when the allocator
  satisfies the request (\<open>ok\<close>), the null pointer otherwise. A negative count converts
  to a size no allocator satisfies.
\<close>

definition calloc :: "bool \<Rightarrow> int \<Rightarrow> ('a::zero) list option" where
  "calloc ok n = (if ok \<and> 0 \<le> n then Some (replicate (nat n) 0) else None)"

section \<open>The functions of aa.c\<close>

text \<open>
  \<^verbatim>\<open>set_m\<close>: \<open>M\<close> becomes \<open>S'Y\<close> or \<open>Y'Y\<close>, one call of \<^verbatim>\<open>gemm\<close> with
  \<open>beta = 0\<close> on \<open>k\<close> by \<open>k\<close> by \<open>l\<close> operands.
\<close>

definition set_m :: "('a::{zero,one}) blas \<Rightarrow> 'a AaWork \<Rightarrow> 'a AaWork option" where
  "set_m B a = do {
     let bl = aw_l a; let bk = aw_k a;
     let onef = 1; let zerof = 0;
     SY \<leftarrow> (if aw_type1 a \<noteq> 0 then aw_S a else aw_Y a);
     Y \<leftarrow> aw_Y a;
     M \<leftarrow> aw_M a;
     Some (a\<lparr>aw_M := Some (gemm B ''Trans'' ''No'' bk bk bl onef SY bl Y bl zerof M bk)\<rparr>)
   }"

text \<open>
  \<^verbatim>\<open>update_accel_params\<close>, statement by statement. \<^verbatim>\<open>a->iter % a->k\<close> is C's
  remainder, which truncates towards zero (\<open>smod\<close>); \<^verbatim>\<open>axpy\<close> is called with
  \<open>alpha = -1\<close>.
\<close>

definition update_accel_params ::
  "('a::{zero,one,uminus}) blas \<Rightarrow> 'a list \<Rightarrow> 'a list \<Rightarrow> 'a AaWork \<Rightarrow> 'a AaWork option" where
  "update_accel_params B x f a = do {
     let idx = aw_iter a smod aw_k a;
     let l = aw_l a;
     let bl = l;
     let neg_onef = - 1;
     g \<leftarrow> memcpy (aw_g a) 0 x l;
     s \<leftarrow> memcpy (aw_s a) 0 x l;
     d \<leftarrow> memcpy (aw_d a) 0 f l;
     let g = axpy B bl neg_onef f g;
     x_prev \<leftarrow> aw_x a;
     let s = axpy B bl neg_onef x_prev s;
     f_prev \<leftarrow> aw_f a;
     let d = axpy B bl neg_onef f_prev d;
     y \<leftarrow> memcpy (aw_y a) 0 g l;
     g_prev \<leftarrow> aw_g_prev a;
     let y = axpy B bl neg_onef g_prev y;
     Y \<leftarrow> memcpy (aw_Y a) (idx * l) y l;
     S \<leftarrow> memcpy (aw_S a) (idx * l) s l;
     D \<leftarrow> memcpy (aw_D a) (idx * l) d l;
     f' \<leftarrow> memcpy (aw_f a) 0 f l;
     x' \<leftarrow> memcpy (aw_x a) 0 x l;
     a \<leftarrow> set_m B (a\<lparr>aw_g := Some g, aw_s := Some s, aw_d := Some d, aw_y := Some y,
                      aw_Y := Some Y, aw_S := Some S, aw_D := Some D,
                      aw_f := Some f', aw_x := Some x'\<rparr>);
     g_prev' \<leftarrow> memcpy (aw_g_prev a) 0 g l;
     Some (a\<lparr>aw_g_prev := Some g_prev'\<rparr>)
   }"

text \<open>
  \<^verbatim>\<open>solve\<close>. The macro \<^verbatim>\<open>MAX_AA_NRM\<close> is defined outside the repository's files and
  is a parameter. The function returns the status, the caller's vector \<open>f\<close> and the
  work space, whose \<open>work\<close>, \<open>M\<close> and \<open>ipiv\<close> the calls overwrite. The message printed
  on rejection is not modelled.
\<close>

definition solve ::
  "('a::{zero,one,uminus,ord}) blas \<Rightarrow> 'a \<Rightarrow> 'a list \<Rightarrow> 'a AaWork \<Rightarrow> int
     \<Rightarrow> (int \<times> 'a list \<times> 'a AaWork) option" where
  "solve B MAX_AA_NRM f a len = do {
     let bl = aw_l a; let blen = len; let bk = aw_k a;
     let neg_onef = - 1; let onef = 1; let zerof = 0;
     SY \<leftarrow> (if aw_type1 a \<noteq> 0 then aw_S a else aw_Y a);
     g \<leftarrow> aw_g a;
     work \<leftarrow> aw_work a;
     let work = gemv B ''Trans'' bl blen onef SY bl g zerof work;
     M \<leftarrow> aw_M a;
     ipiv \<leftarrow> aw_ipiv a;
     let (M, ipiv, work, info) = gesv B blen 1 M bk ipiv work blen;
     let a = a\<lparr>aw_M := Some M, aw_work := Some work, aw_ipiv := Some ipiv\<rparr>;
     let nrm = nrm2 B bk work;
     if info < 0 \<or> nrm \<ge> MAX_AA_NRM then Some (- 1, f, a)
     else do {
       D \<leftarrow> aw_D a;
       Some (info, gemv B ''NoTrans'' bl blen neg_onef D bl work onef f, a)
     }
   }"

text \<open>
  \<^verbatim>\<open>aa_init\<close>. The allocator is a parameter: \<open>al i\<close> says whether the \<open>i\<close>-th call of
  \<^verbatim>\<open>calloc\<close> (counted from 0, the record itself) is satisfied. The result is \<open>None\<close>
  for the null handle.
\<close>

definition aa_init :: "(nat \<Rightarrow> bool) \<Rightarrow> int \<Rightarrow> int \<Rightarrow> int \<Rightarrow> ('a::zero) AaWork option" where
  "aa_init al l aa_mem type1 =
     (if \<not> al 0 then None
      else
        let a = \<lparr>aw_type1 = type1, aw_k = aa_mem, aw_l = l, aw_iter = 0,
                 aw_x = None, aw_f = None, aw_g = None, aw_g_prev = None,
                 aw_y = None, aw_s = None, aw_d = None,
                 aw_Y = None, aw_S = None, aw_D = None,
                 aw_M = None, aw_work = None, aw_ipiv = None\<rparr>
        in
          if aw_k a \<le> 0 then Some a
          else Some (a\<lparr>
            aw_x := calloc (al 1) (aw_l a),
            aw_f := calloc (al 2) (aw_l a),
            aw_g := calloc (al 3) (aw_l a),
            aw_g_prev := calloc (al 4) (aw_l a),
            aw_y := calloc (al 5) (aw_l a),
            aw_s := calloc (al 6) (aw_l a),
            aw_d := calloc (al 7) (aw_l a),
            aw_Y := calloc (al 8) (aw_l a * aw_k a),
            aw_S := calloc (al 9) (aw_l a * aw_k a),
            aw_D := calloc (al 10) (aw_l a * aw_k a),
            aw_M := calloc (al 11) (aw_k a * aw_k a),
            aw_work := calloc (al 12) (aw_k a),
            aw_ipiv := calloc (al 13) (aw_k a)\<rparr>))"

text \<open>
  \<^verbatim>\<open>aa_apply\<close>: the status, the caller's \<open>f\<close> afterwards and the work space
  afterwards. \<^verbatim>\<open>MIN\<close> is the usual minimum macro.
\<close>

definition aa_apply ::
  "('a::{zero,one,uminus,ord}) blas \<Rightarrow> 'a \<Rightarrow> 'a list \<Rightarrow> 'a list \<Rightarrow> 'a AaWork
     \<Rightarrow> (int \<times> 'a list \<times> 'a AaWork) option" where
  "aa_apply B MAX_AA_NRM f x a =
     (if aw_k a \<le> 0 then Some (0, f, a)
      else do {
        a \<leftarrow> update_accel_params B x f a;
        let iter0 = aw_iter a;
        let a = a\<lparr>aw_iter := aw_iter a + 1\<rparr>;
        if iter0 = 0 then Some (0, f, a)
        else solve B MAX_AA_NRM f a (min (aw_iter a - 1) (aw_k a))
      })"

section \<open>Well-formed work spaces and backends\<close>

text \<open>
  \<open>has_len p n\<close>: the pointer \<open>p\<close> is not null and its buffer holds \<open>n\<close> elements.
  \<open>work_ok a\<close>: acceleration is enabled, the dimension is positive, every buffer has
  the size \<^verbatim>\<open>aa_init\<close> allocates for it, and the counter is not negative.
\<close>

definition has_len :: "'b list option \<Rightarrow> int \<Rightarrow> bool" where
  "has_len p n = (case p of None \<Rightarrow> False | Some b \<Rightarrow> length b = nat n)"

definition work_ok :: "'a AaWork \<Rightarrow> bool" where
  "work_ok a =
     (0 < aw_k a \<and> 0 < aw_l a \<and> 0 \<le> aw_iter a \<and>
      has_len (aw_x a) (aw_l a) \<and> has_len (aw_f a) (aw_l a) \<and>
      has_len (aw_g a) (aw_l a) \<and> has_len (aw_g_prev a) (aw_l a) \<and>
      has_len (aw_y a) (aw_l a) \<and> has_len (aw_s a) (aw_l a) \<and>
      has_len (aw_d a) (aw_l a) \<and>
      has_len (aw_Y a) (aw_l a * aw_k a) \<and> has_len (aw_S a) (aw_l a * aw_k a) \<and>
      has_len (aw_D a) (aw_l a * aw_k a) \<and>
      has_len (aw_M a) (aw_k a * aw_k a) \<and>
      has_len (aw_work a) (aw_k a) \<and> has_len (aw_ipiv a) (aw_k a))"

text \<open>
  \<open>blas_ok B\<close>: the routines work in place, so the operand a routine writes keeps its
  length.
\<close>

definition blas_ok :: "'a blas \<Rightarrow> bool" where
  "blas_ok B =
     ((\<forall>n al u v. length (axpy B n al u v) = length v) \<and>
      (\<forall>t m n al A lda u be v. length (gemv B t m n al A lda u be v) = length v) \<and>
      (\<forall>ta tb m n k al A lda C ldc be E lde.
          length (gemm B ta tb m n k al A lda C ldc be E lde) = length E) \<and>
      (\<forall>n nrhs A lda p b ldb.
          length (fst (gesv B n nrhs A lda p b ldb)) = length A \<and>
          length (fst (snd (gesv B n nrhs A lda p b ldb))) = length p \<and>
          length (fst (snd (snd (gesv B n nrhs A lda p b ldb)))) = length b))"

text \<open>Columns of a column-major matrix with \<open>l\<close> rows.\<close>

definition col :: "'a list \<Rightarrow> nat \<Rightarrow> nat \<Rightarrow> 'a list" where
  "col A l j = take l (drop (j * l) A)"

definition put_col :: "'a list \<Rightarrow> nat \<Rightarrow> nat \<Rightarrow> 'a list \<Rightarrow> 'a list" where
  "put_col A l j v = take (j * l) A @ v @ drop (j * l + l) A"

section \<open>The host's loop\<close>

text \<open>
  The host calls \<^verbatim>\<open>aa_apply\<close> once per iteration with the current \<open>x\<close> and
  \<open>f(x)\<close>. \<open>run\<close> is that loop over a list of calls \<open>(x, f)\<close>, returning the
  work space after the last one.
\<close>

fun run ::
  "('a::{zero,one,uminus,ord}) blas \<Rightarrow> 'a \<Rightarrow> ('a list \<times> 'a list) list \<Rightarrow> 'a AaWork
     \<Rightarrow> 'a AaWork option" where
  "run B mx [] a = Some a"
| "run B mx (c # cs) a =
     (case aa_apply B mx (snd c) (fst c) a of
        None \<Rightarrow> None
      | Some r \<Rightarrow> run B mx cs (snd (snd r)))"

text \<open>
  \<open>calls_ok l cs\<close>: every call of the list passes vectors of the dimension \<open>l\<close>.
  \<open>hist_col a j\<close>: column \<open>j\<close> of the three history matrices \<open>Y\<close>, \<open>S\<close>, \<open>D\<close>.
  \<open>cur_diffs a\<close>: the differences \<open>y\<close>, \<open>s\<close>, \<open>d\<close> of the latest call.
\<close>

definition calls_ok :: "int \<Rightarrow> ('a list \<times> 'a list) list \<Rightarrow> bool" where
  "calls_ok l cs = list_all (\<lambda>c. length (fst c) = nat l \<and> length (snd c) = nat l) cs"

definition hist_col :: "'a AaWork \<Rightarrow> nat \<Rightarrow> ('a list \<times> 'a list \<times> 'a list) option" where
  "hist_col a j = do {
     Y \<leftarrow> aw_Y a; S \<leftarrow> aw_S a; D \<leftarrow> aw_D a;
     Some (col Y (nat (aw_l a)) j, col S (nat (aw_l a)) j, col D (nat (aw_l a)) j)
   }"

definition cur_diffs :: "'a AaWork \<Rightarrow> ('a list \<times> 'a list \<times> 'a list) option" where
  "cur_diffs a = do { y \<leftarrow> aw_y a; s \<leftarrow> aw_s a; d \<leftarrow> aw_d a; Some (y, s, d) }"

text \<open>
  The linear system \<^verbatim>\<open>solve\<close> hands to \<^verbatim>\<open>gesv\<close>, and what the routine returns
  for it: the first two calls of \<^verbatim>\<open>solve\<close> on their own.
\<close>

definition solve_system ::
  "('a::{zero,one}) blas \<Rightarrow> 'a AaWork \<Rightarrow> int \<Rightarrow> ('a list \<times> int list \<times> 'a list \<times> int) option" where
  "solve_system B a len = do {
     SY \<leftarrow> (if aw_type1 a \<noteq> 0 then aw_S a else aw_Y a);
     g \<leftarrow> aw_g a;
     work \<leftarrow> aw_work a;
     M \<leftarrow> aw_M a;
     ipiv \<leftarrow> aw_ipiv a;
     Some (gesv B len 1 M (aw_k a) ipiv
             (gemv B ''Trans'' (aw_l a) len 1 SY (aw_l a) g 0 work) len)
   }"

section \<open>Exact arithmetic\<close>

text \<open>
  Componentwise difference of two vectors, and the Gram matrix \<open>A'C\<close> of two
  column-major matrices with \<open>l\<close> rows and \<open>k\<close> columns, itself column-major.
\<close>

definition vsub :: "('a::minus) list \<Rightarrow> 'a list \<Rightarrow> 'a list" where
  "vsub u v = map2 (\<lambda>a b. a - b) u v"

definition gram :: "('a::semiring_0) list \<Rightarrow> 'a list \<Rightarrow> nat \<Rightarrow> nat \<Rightarrow> 'a list" where
  "gram A C l k =
     map (\<lambda>e. sum_list (map (\<lambda>p. A ! (p + (e mod k) * l) * C ! (p + (e div k) * l)) [0..<l]))
       [0..<k * k]"

text \<open>
  Two properties of a work space. \<open>diff_inv a\<close>: the history satisfies \<open>D = S - Y\<close>
  and the residual snapshot is the difference of the two snapshots,
  \<open>g_prev = x_prev - f_prev\<close>. \<open>zero_from a\<close>: the columns that no call has written
  yet, those from the counter on, are zero.
\<close>

definition diff_inv :: "('a::minus) AaWork \<Rightarrow> bool" where
  "diff_inv a =
     (case (aw_Y a, aw_S a, aw_D a, aw_x a, aw_f a, aw_g_prev a) of
        (Some Y, Some S, Some D, Some xp, Some fp, Some gp) \<Rightarrow>
          D = vsub S Y \<and> gp = vsub xp fp
      | _ \<Rightarrow> False)"

definition zero_from :: "('a::zero) AaWork \<Rightarrow> bool" where
  "zero_from a =
     (\<forall>j. nat (aw_iter a) \<le> j \<and> j < nat (aw_k a) \<longrightarrow>
        hist_col a j = Some (replicate (nat (aw_l a)) 0, replicate (nat (aw_l a)) 0,
                             replicate (nat (aw_l a)) 0))"

text \<open>
  A reference backend: the five routines as their documentation defines them, computed
  without rounding. A call with an illegal argument, or with an operand too short for
  the dimensions it states, leaves the output operand as it was (\<^verbatim>\<open>gesv\<close> reports
  the argument in \<open>info\<close>). \<open>fits A ld rows cols\<close>: a matrix with leading
  dimension \<open>ld\<close> and the given shape lies within the buffer \<open>A\<close>.
\<close>

definition is_notrans :: "string \<Rightarrow> bool" where
  "is_notrans t = (case t of [] \<Rightarrow> False | c # _ \<Rightarrow> c = CHR ''N'' \<or> c = CHR ''n'')"

definition is_trans :: "string \<Rightarrow> bool" where
  "is_trans t = (case t of [] \<Rightarrow> False
                 | c # _ \<Rightarrow> c = CHR ''T'' \<or> c = CHR ''t'' \<or> c = CHR ''C'' \<or> c = CHR ''c'')"

definition fits :: "'a list \<Rightarrow> int \<Rightarrow> int \<Rightarrow> int \<Rightarrow> bool" where
  "fits A ld rows cols =
     (rows \<le> 0 \<or> cols \<le> 0 \<or> nat ld * (nat cols - 1) + nat rows \<le> length A)"

definition ref_nrm2 :: "int \<Rightarrow> real list \<Rightarrow> real" where
  "ref_nrm2 n u = sqrt (sum_list (map (\<lambda>i. (u ! i) * (u ! i)) [0..<nat n]))"

definition ref_axpy :: "int \<Rightarrow> ('a::semiring_0) \<Rightarrow> 'a list \<Rightarrow> 'a list \<Rightarrow> 'a list" where
  "ref_axpy n al u v =
     (if nat n \<le> length u \<and> nat n \<le> length v
      then map2 (\<lambda>ui vi. al * ui + vi) (take (nat n) u) (take (nat n) v) @ drop (nat n) v
      else v)"

definition ref_gemv ::
  "string \<Rightarrow> int \<Rightarrow> int \<Rightarrow> ('a::semiring_0) \<Rightarrow> 'a list \<Rightarrow> int \<Rightarrow> 'a list \<Rightarrow> 'a \<Rightarrow> 'a list
     \<Rightarrow> 'a list" where
  "ref_gemv t m n al A lda u be v =
     (let tr = is_trans t;
          lenx = (if tr then m else n);
          leny = (if tr then n else m)
      in
        if (tr \<or> is_notrans t) \<and> 0 \<le> m \<and> 0 \<le> n \<and> max 1 m \<le> lda \<and>
           fits A lda m n \<and> nat lenx \<le> length u \<and> nat leny \<le> length v
        then map (\<lambda>i.
               if i < nat leny
               then al * sum_list (map (\<lambda>p.
                      (if tr then A ! (p + i * nat lda) else A ! (i + p * nat lda)) * u ! p)
                      [0..<nat lenx]) + be * v ! i
               else v ! i) [0..<length v]
        else v)"

definition ref_gemm ::
  "string \<Rightarrow> string \<Rightarrow> int \<Rightarrow> int \<Rightarrow> int \<Rightarrow> ('a::semiring_0) \<Rightarrow> 'a list \<Rightarrow> int \<Rightarrow> 'a list
     \<Rightarrow> int \<Rightarrow> 'a \<Rightarrow> 'a list \<Rightarrow> int \<Rightarrow> 'a list" where
  "ref_gemm ta tb m n k al A lda C ldb be E ldc =
     (let tra = is_trans ta; trb = is_trans tb;
          rowa = (if tra then k else m); cola = (if tra then m else k);
          rowb = (if trb then n else k); colb = (if trb then k else n)
      in
        if (tra \<or> is_notrans ta) \<and> (trb \<or> is_notrans tb) \<and> 0 \<le> m \<and> 0 \<le> n \<and> 0 \<le> k \<and>
           max 1 rowa \<le> lda \<and> max 1 rowb \<le> ldb \<and> max 1 m \<le> ldc \<and>
           fits A lda rowa cola \<and> fits C ldb rowb colb \<and> fits E ldc m n
        then map (\<lambda>e.
               let i = e mod nat ldc; j = e div nat ldc in
               if i < nat m \<and> j < nat n
               then al * sum_list (map (\<lambda>p.
                      (if tra then A ! (p + i * nat lda) else A ! (i + p * nat lda)) *
                      (if trb then C ! (j + p * nat ldb) else C ! (p + j * nat ldb)))
                      [0..<nat k]) + be * E ! e
               else E ! e) [0..<length E]
        else E)"

text \<open>
  \<^verbatim>\<open>gesv\<close>: LU factorisation with partial pivoting, one column at a time, then the
  two triangular solves. \<open>info = j\<close> reports the first pivot that is exactly zero
  (counted from 1); the right-hand side is then left unsolved.
\<close>

definition pivot_row :: "('a::{abs,ord}) list \<Rightarrow> nat \<Rightarrow> nat \<Rightarrow> nat \<Rightarrow> nat" where
  "pivot_row A lda n j =
     fold (\<lambda>i b. if \<bar>A ! (b + j * lda)\<bar> < \<bar>A ! (i + j * lda)\<bar> then i else b) [Suc j..<n] j"

definition lu_step :: "('a::linordered_field) list \<Rightarrow> nat \<Rightarrow> nat \<Rightarrow> nat \<Rightarrow> 'a list" where
  "lu_step A lda n j =
     (let p = pivot_row A lda n j; piv = A ! (p + j * lda) in
      if piv = 0 then A
      else map (\<lambda>e.
             let i = e mod lda; c = e div lda;
                 r = (if i = j then p else if i = p then j else i)
             in if i < n \<and> c < n
                then (if j < i \<and> c = j then A ! (r + c * lda) / piv
                      else if j < i \<and> j < c
                      then A ! (r + c * lda) - A ! (r + j * lda) / piv * A ! (p + c * lda)
                      else A ! (r + c * lda))
                else A ! e) [0..<length A])"

fun lu_factor ::
  "nat \<Rightarrow> ('a::linordered_field) list \<Rightarrow> nat \<Rightarrow> nat \<Rightarrow> int list \<Rightarrow> int
     \<Rightarrow> 'a list \<times> int list \<times> int" where
  "lu_factor 0 A lda n ipiv info = (A, ipiv, info)"
| "lu_factor (Suc m) A lda n ipiv info =
     (let j = n - Suc m; p = pivot_row A lda n j in
      lu_factor m (lu_step A lda n j) lda n (ipiv[j := int p + 1])
        (if A ! (p + j * lda) = 0 \<and> info = 0 then int j + 1 else info))"

definition lu_solve :: "('a::linordered_field) list \<Rightarrow> nat \<Rightarrow> nat \<Rightarrow> int list \<Rightarrow> 'a list \<Rightarrow> 'a list" where
  "lu_solve LU lda n ipiv c =
     (let c1 = fold (\<lambda>j c. c[j := c ! nat (ipiv ! j - 1), nat (ipiv ! j - 1) := c ! j]) [0..<n] c;
          c2 = fold (\<lambda>j c. fold (\<lambda>i c. c[i := c ! i - LU ! (i + j * lda) * c ! j]) [Suc j..<n] c)
                 [0..<n] c1
      in fold (\<lambda>j c.
           let cj = c ! j / LU ! (j + j * lda) in
           fold (\<lambda>i c. c[i := c ! i - LU ! (i + j * lda) * cj]) [0..<j] (c[j := cj]))
           (rev [0..<n]) c2)"

definition ref_gesv ::
  "int \<Rightarrow> int \<Rightarrow> ('a::linordered_field) list \<Rightarrow> int \<Rightarrow> int list \<Rightarrow> 'a list \<Rightarrow> int
     \<Rightarrow> 'a list \<times> int list \<times> 'a list \<times> int" where
  "ref_gesv n nrhs A lda ipiv b ldb =
     (if n < 0 then (A, ipiv, b, - 1)
      else if nrhs < 0 then (A, ipiv, b, - 2)
      else if lda < max 1 n then (A, ipiv, b, - 4)
      else if ldb < max 1 n then (A, ipiv, b, - 7)
      else if \<not> (fits A lda n n \<and> nat n \<le> length ipiv \<and> fits b ldb n nrhs)
      then (A, ipiv, b, - 1)
      else
        let (LU, ipiv', info) = lu_factor (nat n) A (nat lda) (nat n) ipiv 0 in
        if info \<noteq> 0 then (LU, ipiv', b, info)
        else (LU, ipiv',
              map (\<lambda>e. let i = e mod nat ldb; c = e div nat ldb in
                     if i < nat n \<and> c < nat nrhs
                     then lu_solve LU (nat lda) (nat n) ipiv'
                            (take (nat n) (drop (c * nat ldb) b)) ! i
                     else b ! e) [0..<length b],
              0))"

definition ref_blas :: "real blas" where
  "ref_blas = \<lparr>nrm2 = ref_nrm2, axpy = ref_axpy, gemv = ref_gemv, gesv = ref_gesv,
               gemm = ref_gemm\<rparr>"


section \<open>Rounding\<close>

text \<open>
  \<open>fl p q\<close> is \<open>q\<close> rounded to \<open>p\<close> significant binary digits, to nearest with
  ties to even, the exponent unbounded: the rounding of IEEE 754 arithmetic away from
  overflow and underflow, with \<open>p = 53\<close> for \<^verbatim>\<open>double\<close> and \<open>p = 24\<close> for
  \<^verbatim>\<open>float\<close>. \<open>fl_axpy\<close> is \<^verbatim>\<open>axpy\<close> with the product and the sum rounded;
  \<open>fl_blas\<close> is the reference backend with that \<^verbatim>\<open>axpy\<close>, the only routine the
  history columns depend on.
\<close>

definition round_even :: "real \<Rightarrow> int" where
  "round_even r =
     (let n = \<lfloor>r\<rfloor>; d = r - of_int n in
      if d < 1 / 2 then n else if 1 / 2 < d then n + 1 else if even n then n else n + 1)"

definition fl :: "nat \<Rightarrow> real \<Rightarrow> real" where
  "fl p q =
     (if q = 0 then 0
      else let e = \<lfloor>log 2 \<bar>q\<bar>\<rfloor>; u = 2 powr (of_int (e - int p + 1))
           in of_int (round_even (q / u)) * u)"

definition fl_axpy :: "nat \<Rightarrow> int \<Rightarrow> real \<Rightarrow> real list \<Rightarrow> real list \<Rightarrow> real list" where
  "fl_axpy p n al u v =
     (if nat n \<le> length u \<and> nat n \<le> length v
      then map2 (\<lambda>ui vi. fl p (fl p (al * ui) + vi)) (take (nat n) u) (take (nat n) v)
             @ drop (nat n) v
      else v)"

definition fl_blas :: "nat \<Rightarrow> real blas" where
  "fl_blas p = ref_blas\<lparr>axpy := fl_axpy p\<rparr>"

section \<open>A worked run\<close>

text \<open>
  The map \<open>f(x) = x / 2\<close> in dimension 2 with memory 2 and type-1 acceleration:
  the work space as \<^verbatim>\<open>aa_init\<close> returns it (\<open>ex_a0\<close>) and after the first call
  with \<open>x = [2, 4]\<close>, \<open>f = [1, 2]\<close> (\<open>ex_a1\<close>).
\<close>

definition ex_a0 :: "real AaWork" where
  "ex_a0 = \<lparr>aw_type1 = 1, aw_k = 2, aw_l = 2, aw_iter = 0,
            aw_x = Some [0, 0], aw_f = Some [0, 0], aw_g = Some [0, 0],
            aw_g_prev = Some [0, 0], aw_y = Some [0, 0], aw_s = Some [0, 0],
            aw_d = Some [0, 0], aw_Y = Some [0, 0, 0, 0], aw_S = Some [0, 0, 0, 0],
            aw_D = Some [0, 0, 0, 0], aw_M = Some [0, 0, 0, 0], aw_work = Some [0, 0],
            aw_ipiv = Some [0, 0]\<rparr>"

definition ex_a1 :: "real AaWork" where
  "ex_a1 = \<lparr>aw_type1 = 1, aw_k = 2, aw_l = 2, aw_iter = 1,
            aw_x = Some [2, 4], aw_f = Some [1, 2], aw_g = Some [1, 2],
            aw_g_prev = Some [1, 2], aw_y = Some [1, 2], aw_s = Some [2, 4],
            aw_d = Some [1, 2], aw_Y = Some [1, 2, 0, 0], aw_S = Some [2, 4, 0, 0],
            aw_D = Some [1, 2, 0, 0], aw_M = Some [10, 0, 0, 0], aw_work = Some [0, 0],
            aw_ipiv = Some [0, 0]\<rparr>"

text \<open>
  The second call of the worked run, \<open>x = [1, 2]\<close>, \<open>f = [1/2, 1]\<close>, is accepted with
  weight \<open>1/2\<close> and returns \<open>f = [0, 0]\<close>, the fixed point: \<open>ex_u2\<close> is the work
  space after the history update of that call, \<open>ex_a2\<close> after the call. A second call
  with \<open>x = [50000, 0]\<close>, \<open>f = [0, 0]\<close> instead is rejected, its weight being
  \<open>10000\<close>: \<open>ex_r2\<close> is the work space after it.
\<close>

definition ex_u2 :: "real AaWork" where
  "ex_u2 = \<lparr>aw_type1 = 1, aw_k = 2, aw_l = 2, aw_iter = 1,
            aw_x = Some [1, 2], aw_f = Some [1 / 2, 1], aw_g = Some [1 / 2, 1],
            aw_g_prev = Some [1 / 2, 1], aw_y = Some [- (1 / 2), - 1], aw_s = Some [- 1, - 2],
            aw_d = Some [- (1 / 2), - 1], aw_Y = Some [1, 2, - (1 / 2), - 1],
            aw_S = Some [2, 4, - 1, - 2], aw_D = Some [1, 2, - (1 / 2), - 1],
            aw_M = Some [10, - 5, - 5, 5 / 2], aw_work = Some [0, 0],
            aw_ipiv = Some [0, 0]\<rparr>"

definition ex_a2 :: "real AaWork" where
  "ex_a2 = ex_u2\<lparr>aw_iter := 2, aw_M := Some [10, - 5, - 5, 5 / 2],
                 aw_work := Some [1 / 2, 0], aw_ipiv := Some [1, 0]\<rparr>"

definition ex_r2 :: "real AaWork" where
  "ex_r2 = \<lparr>aw_type1 = 1, aw_k = 2, aw_l = 2, aw_iter = 2,
            aw_x = Some [50000, 0], aw_f = Some [0, 0], aw_g = Some [50000, 0],
            aw_g_prev = Some [50000, 0], aw_y = Some [49999, - 2], aw_s = Some [49998, - 4],
            aw_d = Some [- 1, - 2], aw_Y = Some [1, 2, 49999, - 2],
            aw_S = Some [2, 4, 49998, - 4], aw_D = Some [1, 2, - 1, - 2],
            aw_M = Some [10, 49990, 99990, 2499850010], aw_work = Some [10000, 0],
            aw_ipiv = Some [1, 0]\<rparr>"

text \<open>
  The third call of the worked run, at the fixed point \<open>x = f = [0, 0]\<close>; \<open>ex_a3\<close>
  is the work space after it.
\<close>

definition ex_a3 :: "real AaWork" where
  "ex_a3 = \<lparr>aw_type1 = 1, aw_k = 2, aw_l = 2, aw_iter = 3,
            aw_x = Some [0, 0], aw_f = Some [0, 0], aw_g = Some [0, 0],
            aw_g_prev = Some [0, 0], aw_y = Some [- (1 / 2), - 1], aw_s = Some [- 1, - 2],
            aw_d = Some [- (1 / 2), - 1], aw_Y = Some [- (1 / 2), - 1, - (1 / 2), - 1],
            aw_S = Some [- 1, - 2, - 1, - 2], aw_D = Some [- (1 / 2), - 1, - (1 / 2), - 1],
            aw_M = Some [5 / 2, 1, 5 / 2, 0], aw_work = Some [0, 0],
            aw_ipiv = Some [1, 2]\<rparr>"

text \<open>
  The identity map, \<open>f(x) = x\<close>, from the same start: \<open>ex_i1\<close> is the work space
  after the first call with \<open>x = f = [1, 2]\<close>, \<open>ex_i2\<close> after a second such call.
  Every residual is zero, so the Gram matrix is the zero matrix.
\<close>

definition ex_i1 :: "real AaWork" where
  "ex_i1 = \<lparr>aw_type1 = 1, aw_k = 2, aw_l = 2, aw_iter = 1,
            aw_x = Some [1, 2], aw_f = Some [1, 2], aw_g = Some [0, 0],
            aw_g_prev = Some [0, 0], aw_y = Some [0, 0], aw_s = Some [1, 2],
            aw_d = Some [1, 2], aw_Y = Some [0, 0, 0, 0], aw_S = Some [1, 2, 0, 0],
            aw_D = Some [1, 2, 0, 0], aw_M = Some [0, 0, 0, 0], aw_work = Some [0, 0],
            aw_ipiv = Some [0, 0]\<rparr>"

definition ex_i2 :: "real AaWork" where
  "ex_i2 = \<lparr>aw_type1 = 1, aw_k = 2, aw_l = 2, aw_iter = 2,
            aw_x = Some [1, 2], aw_f = Some [1, 2], aw_g = Some [0, 0],
            aw_g_prev = Some [0, 0], aw_y = Some [0, 0], aw_s = Some [0, 0],
            aw_d = Some [0, 0], aw_Y = Some [0, 0, 0, 0], aw_S = Some [1, 2, 0, 0],
            aw_D = Some [1, 2, 0, 0], aw_M = Some [0, 0, 0, 0], aw_work = Some [0, 0],
            aw_ipiv = Some [1, 0]\<rparr>"

text \<open>
  Dimension 1 and memory 1: the work space as \<^verbatim>\<open>aa_init\<close> returns it (\<open>ex_f0\<close>)
  and after a first call with \<open>x = [2^53]\<close>, \<open>f = [1/2]\<close> in rounded arithmetic
  (\<open>ex_f1\<close>); \<open>2^53 = 9007199254740992\<close>.
\<close>

definition ex_f0 :: "real AaWork" where
  "ex_f0 = \<lparr>aw_type1 = 1, aw_k = 1, aw_l = 1, aw_iter = 0,
            aw_x = Some [0], aw_f = Some [0], aw_g = Some [0], aw_g_prev = Some [0],
            aw_y = Some [0], aw_s = Some [0], aw_d = Some [0], aw_Y = Some [0],
            aw_S = Some [0], aw_D = Some [0], aw_M = Some [0], aw_work = Some [0],
            aw_ipiv = Some [0]\<rparr>"

definition ex_f1 :: "real AaWork" where
  "ex_f1 = \<lparr>aw_type1 = 1, aw_k = 1, aw_l = 1, aw_iter = 1,
            aw_x = Some [9007199254740992], aw_f = Some [1 / 2],
            aw_g = Some [9007199254740992], aw_g_prev = Some [9007199254740992],
            aw_y = Some [9007199254740992], aw_s = Some [9007199254740992],
            aw_d = Some [1 / 2], aw_Y = Some [9007199254740992],
            aw_S = Some [9007199254740992], aw_D = Some [1 / 2],
            aw_M = Some [81129638414606681695789005144064], aw_work = Some [0],
            aw_ipiv = Some [0]\<rparr>"

text \<open>A disabled instance: \<^verbatim>\<open>aa_init\<close> with memory 0 allocates no buffer.\<close>

definition ex_off :: "real AaWork" where
  "ex_off = \<lparr>aw_type1 = 1, aw_k = 0, aw_l = 2, aw_iter = 0,
             aw_x = None, aw_f = None, aw_g = None, aw_g_prev = None, aw_y = None,
             aw_s = None, aw_d = None, aw_Y = None, aw_S = None, aw_D = None,
             aw_M = None, aw_work = None, aw_ipiv = None\<rparr>"

section \<open>Basic facts\<close>

text \<open>
  The square root is not computable, so the norm of the reference backend stays
  symbolic when a concrete run is evaluated; its values are proved where they are used.
\<close>

declare ref_nrm2_def [code del]


lemma aa_apply_disabled: "aw_k a \<le> 0 \<Longrightarrow> aa_apply B mx f x a = Some (0, f, a)"
  by (simp add: aa_apply_def)

lemma memcpy_Some [simp]:
  "0 \<le> off \<Longrightarrow> 0 \<le> n \<Longrightarrow> nat off + nat n \<le> length d \<Longrightarrow> nat n \<le> length src \<Longrightarrow>
   memcpy (Some d) off src n = Some (take (nat off) d @ take (nat n) src @ drop (nat off + nat n) d)"
  by (simp add: memcpy_def)

lemma has_len_Some [simp]: "has_len (Some b) n = (length b = nat n)"
  by (simp add: has_len_def)

lemma has_lenD: "has_len p n \<Longrightarrow> \<exists>b. p = Some b \<and> length b = nat n"
  by (cases p) (simp_all add: has_len_def)

lemma idx_bound:
  assumes "0 < k" "0 < l" "0 \<le> i"
  shows "nat ((i smod k) * l) + nat l \<le> nat (l * k)" "0 \<le> (i smod k) * l"
    "nat ((i smod k) * l) = nat (i mod k) * nat l" "i smod k = i mod k"
proof -
  show e: "i smod k = i mod k" using assms by (simp add: smod_mod_positive)
  have r: "0 \<le> i mod k" "i mod k < k" using assms by simp_all
  show "0 \<le> (i smod k) * l" unfolding e using r assms by simp
  show m: "nat ((i smod k) * l) = nat (i mod k) * nat l"
    unfolding e using r assms by (simp add: nat_mult_distrib)
  have "nat (i mod k) + 1 \<le> nat k" using r by linarith
  then have "(nat (i mod k) + 1) * nat l \<le> nat k * nat l" by (rule mult_le_mono1)
  moreover have "nat (l * k) = nat k * nat l"
    using assms by (simp add: nat_mult_distrib mult.commute)
  ultimately show "nat ((i smod k) * l) + nat l \<le> nat (l * k)"
    unfolding m by simp
qed

lemma update_accel_params_eq_ax:
  fixes B :: "('a::{zero,one,uminus}) blas"
  assumes ok: "work_ok a" and ax: "\<And>n al u v. length (axpy B n al u v) = length v"
    and lx: "length x = nat (aw_l a)" and lf: "length f = nat (aw_l a)"
    and px: "aw_x a = Some xp" and pf: "aw_f a = Some fp" and pg: "aw_g_prev a = Some gp"
    and pY: "aw_Y a = Some Y" and pS: "aw_S a = Some S" and pD: "aw_D a = Some D"
    and pM: "aw_M a = Some M"
  shows "update_accel_params B x f a =
    Some (a\<lparr>aw_g := Some (axpy B (aw_l a) (- 1) f x),
            aw_s := Some (axpy B (aw_l a) (- 1) xp x),
            aw_d := Some (axpy B (aw_l a) (- 1) fp f),
            aw_y := Some (axpy B (aw_l a) (- 1) gp (axpy B (aw_l a) (- 1) f x)),
            aw_Y := Some (put_col Y (nat (aw_l a)) (nat (aw_iter a mod aw_k a))
                      (axpy B (aw_l a) (- 1) gp (axpy B (aw_l a) (- 1) f x))),
            aw_S := Some (put_col S (nat (aw_l a)) (nat (aw_iter a mod aw_k a))
                      (axpy B (aw_l a) (- 1) xp x)),
            aw_D := Some (put_col D (nat (aw_l a)) (nat (aw_iter a mod aw_k a))
                      (axpy B (aw_l a) (- 1) fp f)),
            aw_f := Some f, aw_x := Some x,
            aw_M := Some (gemm B ''Trans'' ''No'' (aw_k a) (aw_k a) (aw_l a) 1
                      (if aw_type1 a \<noteq> 0
                       then put_col S (nat (aw_l a)) (nat (aw_iter a mod aw_k a))
                              (axpy B (aw_l a) (- 1) xp x)
                       else put_col Y (nat (aw_l a)) (nat (aw_iter a mod aw_k a))
                              (axpy B (aw_l a) (- 1) gp (axpy B (aw_l a) (- 1) f x)))
                      (aw_l a)
                      (put_col Y (nat (aw_l a)) (nat (aw_iter a mod aw_k a))
                         (axpy B (aw_l a) (- 1) gp (axpy B (aw_l a) (- 1) f x)))
                      (aw_l a) 0 M (aw_k a)),
            aw_g_prev := Some (axpy B (aw_l a) (- 1) f x)\<rparr>)"
proof -
  have k: "0 < aw_k a" and lp: "0 < aw_l a" and i0: "0 \<le> aw_iter a"
    using ok by (simp_all add: work_ok_def)
  have l0: "0 \<le> aw_l a" using lp by simp
  have lens: "length xp = nat (aw_l a)" "length fp = nat (aw_l a)" "length gp = nat (aw_l a)"
    "length Y = nat (aw_l a * aw_k a)" "length S = nat (aw_l a * aw_k a)"
    "length D = nat (aw_l a * aw_k a)"
    using ok px pf pg pY pS pD by (simp_all add: work_ok_def)
  obtain g0 s0 d0 y0 where p0: "aw_g a = Some g0" "aw_s a = Some s0" "aw_d a = Some d0"
    "aw_y a = Some y0" and len0: "length g0 = nat (aw_l a)" "length s0 = nat (aw_l a)"
    "length d0 = nat (aw_l a)" "length y0 = nat (aw_l a)"
    using ok unfolding work_ok_def by (auto dest!: has_lenD)
  note ib = idx_bound [OF k lp i0]
  have c1: "memcpy (aw_g a) 0 x (aw_l a) = Some x" "memcpy (aw_s a) 0 x (aw_l a) = Some x"
    "memcpy (aw_d a) 0 f (aw_l a) = Some f"
    using l0 lx lf p0 len0 by simp_all
  have c2: "\<And>v. length v = nat (aw_l a) \<Longrightarrow> memcpy (aw_y a) 0 v (aw_l a) = Some v"
    "\<And>v. length v = nat (aw_l a) \<Longrightarrow> memcpy (Some gp) 0 v (aw_l a) = Some v"
    "\<And>v. length v = nat (aw_l a) \<Longrightarrow> memcpy (Some fp) 0 v (aw_l a) = Some v"
    "\<And>v. length v = nat (aw_l a) \<Longrightarrow> memcpy (Some xp) 0 v (aw_l a) = Some v"
    using l0 p0 len0 lens by simp_all
  have c3: "\<And>A v. length v = nat (aw_l a) \<Longrightarrow> length A = nat (aw_l a * aw_k a) \<Longrightarrow>
     memcpy (Some A) (aw_iter a smod aw_k a * aw_l a) v (aw_l a)
       = Some (put_col A (nat (aw_l a)) (nat (aw_iter a mod aw_k a)) v)"
    using l0 ib by (simp add: put_col_def)
  show ?thesis
    unfolding update_accel_params_def set_m_def
    by (simp add: Let_def px pf pg pY pS pD pM c1 c2 c3 ax lx lf lens)
qed

lemma update_accel_params_eq:
  fixes B :: "('a::{zero,one,uminus}) blas"
  assumes ok: "work_ok a" and bo: "blas_ok B"
    and lx: "length x = nat (aw_l a)" and lf: "length f = nat (aw_l a)"
    and px: "aw_x a = Some xp" and pf: "aw_f a = Some fp" and pg: "aw_g_prev a = Some gp"
    and pY: "aw_Y a = Some Y" and pS: "aw_S a = Some S" and pD: "aw_D a = Some D"
    and pM: "aw_M a = Some M"
  shows "update_accel_params B x f a =
    Some (a\<lparr>aw_g := Some (axpy B (aw_l a) (- 1) f x),
            aw_s := Some (axpy B (aw_l a) (- 1) xp x),
            aw_d := Some (axpy B (aw_l a) (- 1) fp f),
            aw_y := Some (axpy B (aw_l a) (- 1) gp (axpy B (aw_l a) (- 1) f x)),
            aw_Y := Some (put_col Y (nat (aw_l a)) (nat (aw_iter a mod aw_k a))
                      (axpy B (aw_l a) (- 1) gp (axpy B (aw_l a) (- 1) f x))),
            aw_S := Some (put_col S (nat (aw_l a)) (nat (aw_iter a mod aw_k a))
                      (axpy B (aw_l a) (- 1) xp x)),
            aw_D := Some (put_col D (nat (aw_l a)) (nat (aw_iter a mod aw_k a))
                      (axpy B (aw_l a) (- 1) fp f)),
            aw_f := Some f, aw_x := Some x,
            aw_M := Some (gemm B ''Trans'' ''No'' (aw_k a) (aw_k a) (aw_l a) 1
                      (if aw_type1 a \<noteq> 0
                       then put_col S (nat (aw_l a)) (nat (aw_iter a mod aw_k a))
                              (axpy B (aw_l a) (- 1) xp x)
                       else put_col Y (nat (aw_l a)) (nat (aw_iter a mod aw_k a))
                              (axpy B (aw_l a) (- 1) gp (axpy B (aw_l a) (- 1) f x)))
                      (aw_l a)
                      (put_col Y (nat (aw_l a)) (nat (aw_iter a mod aw_k a))
                         (axpy B (aw_l a) (- 1) gp (axpy B (aw_l a) (- 1) f x)))
                      (aw_l a) 0 M (aw_k a)),
            aw_g_prev := Some (axpy B (aw_l a) (- 1) f x)\<rparr>)"
proof (rule update_accel_params_eq_ax [OF ok _ lx lf px pf pg pY pS pD pM])
  show "\<And>n al u v. length (axpy B n al u v) = length v"
    using bo by (simp add: blas_ok_def)
qed

lemma length_put_col:
  "j * l + l \<le> length A \<Longrightarrow> length v = l \<Longrightarrow> length (put_col A l j v) = length A"
  by (simp add: put_col_def)

lemma col_bound:
  assumes "0 < k" "0 < l" "0 \<le> i"
  shows "nat (i mod k) * nat l + nat l \<le> nat (l * k)"
  using idx_bound(1,3) [OF assms] by simp

lemma update_accel_params_work_ok:
  fixes B :: "('a::{zero,one,uminus}) blas"
  assumes ok: "work_ok a" and bo: "blas_ok B"
    and lx: "length x = nat (aw_l a)" and lf: "length f = nat (aw_l a)"
  obtains a' where "update_accel_params B x f a = Some a'" "work_ok a'"
    "aw_iter a' = aw_iter a" "aw_k a' = aw_k a" "aw_l a' = aw_l a"
    "aw_type1 a' = aw_type1 a" "aw_x a' = Some x" "aw_f a' = Some f"
    "aw_work a' = aw_work a" "aw_ipiv a' = aw_ipiv a"
proof -
  have k: "0 < aw_k a" and lp: "0 < aw_l a" and i0: "0 \<le> aw_iter a"
    using ok by (simp_all add: work_ok_def)
  obtain xp fp gp Y S D M where p: "aw_x a = Some xp" "aw_f a = Some fp"
    "aw_g_prev a = Some gp" "aw_Y a = Some Y" "aw_S a = Some S" "aw_D a = Some D"
    "aw_M a = Some M"
    and len: "length Y = nat (aw_l a * aw_k a)" "length S = nat (aw_l a * aw_k a)"
      "length D = nat (aw_l a * aw_k a)" "length M = nat (aw_k a * aw_k a)"
    using ok unfolding work_ok_def by (auto dest!: has_lenD)
  have ax: "\<And>n al u v. length (axpy B n al u v) = length v"
    and gm: "\<And>ta tb m n k al A lda C ldc be E lde.
          length (gemm B ta tb m n k al A lda C ldc be E lde) = length E"
    using bo by (simp_all add: blas_ok_def)
  note cb = col_bound [OF k lp i0]
  note eq = update_accel_params_eq [OF ok bo lx lf p]
  show ?thesis
  proof (rule that)
    show "update_accel_params B x f a = Some (the (update_accel_params B x f a))"
      by (simp add: eq)
    show "work_ok (the (update_accel_params B x f a))"
      using ok cb by (simp add: eq work_ok_def ax gm lx lf len length_put_col)
  qed (simp_all add: eq)
qed

lemma solve_eq:
  fixes B :: "('a::{zero,one,uminus,ord}) blas"
  assumes ok: "work_ok a"
  obtains A p w info D where
    "solve_system B a len = Some (A, p, w, info)"
    "aw_D a = Some D"
    "solve B mx f a len =
       Some (if info < 0 \<or> mx \<le> nrm2 B (aw_k a) w
             then (- 1, f, a\<lparr>aw_M := Some A, aw_work := Some w, aw_ipiv := Some p\<rparr>)
             else (info, gemv B ''NoTrans'' (aw_l a) len (- 1) D (aw_l a) w 1 f,
                   a\<lparr>aw_M := Some A, aw_work := Some w, aw_ipiv := Some p\<rparr>))"
proof -
  obtain Y S D M g wk ip where p: "aw_Y a = Some Y" "aw_S a = Some S" "aw_D a = Some D"
    "aw_M a = Some M" "aw_g a = Some g" "aw_work a = Some wk" "aw_ipiv a = Some ip"
    using ok unfolding work_ok_def by (auto dest!: has_lenD)
  have sy: "(if aw_type1 a \<noteq> 0 then aw_S a else aw_Y a)
      = Some (if aw_type1 a \<noteq> 0 then S else Y)"
    by (simp add: p)
  obtain A q w info where r: "solve_system B a len = Some (A, q, w, info)"
    by (cases "gesv B len 1 M (aw_k a) ip
          (gemv B ''Trans'' (aw_l a) len 1 (if aw_type1 a \<noteq> 0 then S else Y) (aw_l a) g 0 wk) len")
      (simp add: solve_system_def p(3-) sy)
  show ?thesis
  proof (rule that [OF r p(3)])
    show "solve B mx f a len =
       Some (if info < 0 \<or> mx \<le> nrm2 B (aw_k a) w
             then (- 1, f, a\<lparr>aw_M := Some A, aw_work := Some w, aw_ipiv := Some q\<rparr>)
             else (info, gemv B ''NoTrans'' (aw_l a) len (- 1) D (aw_l a) w 1 f,
                   a\<lparr>aw_M := Some A, aw_work := Some w, aw_ipiv := Some q\<rparr>))"
      using r by (simp add: solve_def solve_system_def p(3-) sy Let_def)
  qed
qed

lemma solve_system_iter [simp]:
  "solve_system B (a\<lparr>aw_iter := i\<rparr>) len = solve_system B a len"
  by (simp add: solve_system_def)

lemma solve_system_lengths:
  assumes ok: "work_ok a" and bo: "blas_ok B"
    and r: "solve_system B a len = Some (A, p, w, info)"
  shows "length A = nat (aw_k a * aw_k a)" "length p = nat (aw_k a)" "length w = nat (aw_k a)"
proof -
  obtain Y S M g wk ip where q: "aw_Y a = Some Y" "aw_S a = Some S"
    "aw_M a = Some M" "aw_g a = Some g" "aw_work a = Some wk" "aw_ipiv a = Some ip"
    and len: "length M = nat (aw_k a * aw_k a)" "length wk = nat (aw_k a)"
      "length ip = nat (aw_k a)"
    using ok unfolding work_ok_def by (auto dest!: has_lenD)
  have gv: "\<And>t m n al A lda u be v. length (gemv B t m n al A lda u be v) = length v"
    and gs: "\<And>n nrhs A lda p b ldb.
          length (fst (gesv B n nrhs A lda p b ldb)) = length A \<and>
          length (fst (snd (gesv B n nrhs A lda p b ldb))) = length p \<and>
          length (fst (snd (snd (gesv B n nrhs A lda p b ldb)))) = length b"
    using bo by (simp_all add: blas_ok_def)
  have sy: "(if aw_type1 a \<noteq> 0 then aw_S a else aw_Y a)
      = Some (if aw_type1 a \<noteq> 0 then S else Y)"
    by (simp add: q)
  define rhs where "rhs = gemv B ''Trans'' (aw_l a) len 1 (if aw_type1 a \<noteq> 0 then S else Y) (aw_l a) g 0 wk"
  have e: "gesv B len 1 M (aw_k a) ip rhs len = (A, p, w, info)"
    using r by (simp add: solve_system_def q(3-) sy rhs_def)
  have "length rhs = nat (aw_k a)" by (simp add: rhs_def gv len)
  with gs [of len 1 M "aw_k a" ip rhs len] e len
  show "length A = nat (aw_k a * aw_k a)" "length p = nat (aw_k a)" "length w = nat (aw_k a)"
    by simp_all
qed

lemma aa_apply_state:
  fixes B :: "('a::{zero,one,uminus,ord}) blas"
  assumes ok: "work_ok a" and bo: "blas_ok B"
    and lx: "length x = nat (aw_l a)" and lf: "length f = nat (aw_l a)"
  obtains a1 st f' A p w where
    "update_accel_params B x f a = Some a1"
    "aa_apply B mx f x a =
       Some (st, f', a1\<lparr>aw_iter := aw_iter a + 1, aw_M := Some A, aw_work := Some w,
                          aw_ipiv := Some p\<rparr>)"
    "length A = nat (aw_k a * aw_k a)" "length w = nat (aw_k a)" "length p = nat (aw_k a)"
    "length f' = length f"
proof -
  obtain a1 where u: "update_accel_params B x f a = Some a1" and ok1: "work_ok a1"
    and fr: "aw_iter a1 = aw_iter a" "aw_k a1 = aw_k a" "aw_l a1 = aw_l a"
    by (rule update_accel_params_work_ok [OF ok bo lx lf])
  have k: "0 < aw_k a" using ok by (simp add: work_ok_def)
  have gv: "\<And>t m n al A lda u be v. length (gemv B t m n al A lda u be v) = length v"
    using bo by (simp add: blas_ok_def)
  show ?thesis
  proof (cases "aw_iter a = 0")
    case True
    obtain M wk ip where q: "aw_M a1 = Some M" "aw_work a1 = Some wk" "aw_ipiv a1 = Some ip"
      and len: "length M = nat (aw_k a * aw_k a)" "length wk = nat (aw_k a)"
        "length ip = nat (aw_k a)"
      using ok1 fr unfolding work_ok_def by (auto dest!: has_lenD)
    have s: "a1\<lparr>aw_iter := aw_iter a + 1, aw_M := Some M, aw_work := Some wk,
                 aw_ipiv := Some ip\<rparr> = a1\<lparr>aw_iter := aw_iter a + 1\<rparr>"
      using q by (cases a1) simp
    have "aa_apply B mx f x a = Some (0, f, a1\<lparr>aw_iter := aw_iter a + 1\<rparr>)"
      using k True by (simp add: aa_apply_def u fr Let_def)
    then have "aa_apply B mx f x a = Some (0, f, a1\<lparr>aw_iter := aw_iter a + 1,
        aw_M := Some M, aw_work := Some wk, aw_ipiv := Some ip\<rparr>)"
      by (simp only: s)
    then show ?thesis by (rule that [OF u _ len(1,2,3) refl])
  next
    case False
    let ?a2 = "a1\<lparr>aw_iter := aw_iter a + 1\<rparr>"
    let ?len = "min (aw_iter a) (aw_k a)"
    have ok2: "work_ok ?a2" using ok1 fr ok by (simp add: work_ok_def)
    have e: "aa_apply B mx f x a = solve B mx f ?a2 ?len"
      using k False by (simp add: aa_apply_def u fr Let_def)
    obtain A p w info D where r: "solve_system B ?a2 ?len = Some (A, p, w, info)"
      and sv: "solve B mx f ?a2 ?len =
       Some (if info < 0 \<or> mx \<le> nrm2 B (aw_k ?a2) w
             then (- 1, f, ?a2\<lparr>aw_M := Some A, aw_work := Some w, aw_ipiv := Some p\<rparr>)
             else (info, gemv B ''NoTrans'' (aw_l ?a2) ?len (- 1) D (aw_l ?a2) w 1 f,
                   ?a2\<lparr>aw_M := Some A, aw_work := Some w, aw_ipiv := Some p\<rparr>))"
      by (rule solve_eq [OF ok2, of B ?len mx f])
    have fr2: "aw_k ?a2 = aw_k a" "aw_l ?a2 = aw_l a" using fr by simp_all
    note ln = solve_system_lengths [OF ok2 bo r, unfolded fr2]
    show ?thesis
    proof (cases "info < 0 \<or> mx \<le> nrm2 B (aw_k ?a2) w")
      case True
      then have "aa_apply B mx f x a = Some (- 1, f, a1\<lparr>aw_iter := aw_iter a + 1,
          aw_M := Some A, aw_work := Some w, aw_ipiv := Some p\<rparr>)"
        using e sv by simp
      then show ?thesis using ln(1,3,2) by (rule that [OF u _ _ _ _ refl])
    next
      case False
      then have "aa_apply B mx f x a =
          Some (info, gemv B ''NoTrans'' (aw_l ?a2) ?len (- 1) D (aw_l ?a2) w 1 f,
            a1\<lparr>aw_iter := aw_iter a + 1,
              aw_M := Some A, aw_work := Some w, aw_ipiv := Some p\<rparr>)"
        using e sv by simp
      then show ?thesis using ln(1,3,2) gv by (rule that [OF u])
    qed
  qed
qed

lemma aa_apply_post_warmup:
  fixes B :: "('a::{zero,one,uminus,ord}) blas"
  assumes ok: "work_ok a" and bo: "blas_ok B"
    and lx: "length x = nat (aw_l a)" and lf: "length f = nat (aw_l a)"
    and it: "aw_iter a \<noteq> 0"
  obtains a1 A p w info D where
    "update_accel_params B x f a = Some a1"
    "solve_system B a1 (min (aw_iter a) (aw_k a)) = Some (A, p, w, info)"
    "aw_D a1 = Some D"
    "aa_apply B mx f x a =
       Some (if info < 0 \<or> mx \<le> nrm2 B (aw_k a) w
             then (- 1, f, a1\<lparr>aw_iter := aw_iter a + 1, aw_M := Some A,
                                 aw_work := Some w, aw_ipiv := Some p\<rparr>)
             else (info,
                   gemv B ''NoTrans'' (aw_l a) (min (aw_iter a) (aw_k a)) (- 1) D (aw_l a) w 1 f,
                   a1\<lparr>aw_iter := aw_iter a + 1, aw_M := Some A,
                        aw_work := Some w, aw_ipiv := Some p\<rparr>))"
proof -
  obtain a1 where u: "update_accel_params B x f a = Some a1" and ok1: "work_ok a1"
    and fr: "aw_iter a1 = aw_iter a" "aw_k a1 = aw_k a" "aw_l a1 = aw_l a"
    by (rule update_accel_params_work_ok [OF ok bo lx lf])
  have k: "0 < aw_k a" using ok by (simp add: work_ok_def)
  let ?a2 = "a1\<lparr>aw_iter := aw_iter a + 1\<rparr>"
  let ?len = "min (aw_iter a) (aw_k a)"
  have ok2: "work_ok ?a2" using ok1 fr ok by (simp add: work_ok_def)
  have fr2: "aw_k ?a2 = aw_k a" "aw_l ?a2 = aw_l a" "aw_D ?a2 = aw_D a1"
    using fr by simp_all
  have e: "aa_apply B mx f x a = solve B mx f ?a2 ?len"
    using k it by (simp add: aa_apply_def u fr Let_def)
  obtain A p w info D where r: "solve_system B ?a2 ?len = Some (A, p, w, info)"
    and d: "aw_D ?a2 = Some D"
    and sv: "solve B mx f ?a2 ?len =
       Some (if info < 0 \<or> mx \<le> nrm2 B (aw_k ?a2) w
             then (- 1, f, ?a2\<lparr>aw_M := Some A, aw_work := Some w, aw_ipiv := Some p\<rparr>)
             else (info, gemv B ''NoTrans'' (aw_l ?a2) ?len (- 1) D (aw_l ?a2) w 1 f,
                   ?a2\<lparr>aw_M := Some A, aw_work := Some w, aw_ipiv := Some p\<rparr>))"
    by (rule solve_eq [OF ok2, of B ?len mx f])
  show ?thesis
  proof (rule that [OF u])
    show "solve_system B a1 ?len = Some (A, p, w, info)" using r by simp
    show "aw_D a1 = Some D" using d by simp
    show "aa_apply B mx f x a =
       Some (if info < 0 \<or> mx \<le> nrm2 B (aw_k a) w
             then (- 1, f, a1\<lparr>aw_iter := aw_iter a + 1, aw_M := Some A,
                                 aw_work := Some w, aw_ipiv := Some p\<rparr>)
             else (info, gemv B ''NoTrans'' (aw_l a) ?len (- 1) D (aw_l a) w 1 f,
                   a1\<lparr>aw_iter := aw_iter a + 1, aw_M := Some A,
                        aw_work := Some w, aw_ipiv := Some p\<rparr>))"
      unfolding e sv fr2 by simp
  qed
qed

lemma aa_apply_warmup:
  fixes B :: "('a::{zero,one,uminus,ord}) blas"
  assumes ok: "work_ok a" and bo: "blas_ok B"
    and lx: "length x = nat (aw_l a)" and lf: "length f = nat (aw_l a)"
    and it: "aw_iter a = 0"
  obtains a1 where
    "update_accel_params B x f a = Some a1"
    "aa_apply B mx f x a = Some (0, f, a1\<lparr>aw_iter := 1\<rparr>)"
    "aw_x a1 = Some x" "aw_f a1 = Some f"
proof -
  obtain a1 where u: "update_accel_params B x f a = Some a1" and ok1: "work_ok a1"
    and fr: "aw_iter a1 = aw_iter a" "aw_k a1 = aw_k a" "aw_l a1 = aw_l a"
      "aw_type1 a1 = aw_type1 a" "aw_x a1 = Some x" "aw_f a1 = Some f"
    by (rule update_accel_params_work_ok [OF ok bo lx lf])
  have k: "0 < aw_k a" using ok by (simp add: work_ok_def)
  have "aa_apply B mx f x a = Some (0, f, a1\<lparr>aw_iter := 1\<rparr>)"
    using k it by (simp add: aa_apply_def u fr Let_def)
  then show ?thesis using fr(5,6) by (rule that [OF u])
qed

lemma length_lu_step [simp]: "length (lu_step A lda n j) = length A"
  by (simp add: lu_step_def Let_def)

lemma lu_factor_lengths:
  "lu_factor m A lda n ipiv info = (LU, p, i) \<Longrightarrow> length LU = length A \<and> length p = length ipiv"
proof (induction m arbitrary: A ipiv info)
  case 0
  then show ?case by simp
next
  case (Suc m)
  from Suc.prems have
    "lu_factor m (lu_step A lda n (n - Suc m)) lda n
       (ipiv[n - Suc m := int (pivot_row A lda n (n - Suc m)) + 1])
       (if A ! (pivot_row A lda n (n - Suc m) + (n - Suc m) * lda) = 0 \<and> info = 0
        then int (n - Suc m) + 1 else info) = (LU, p, i)"
    by (simp add: Let_def)
  from Suc.IH [OF this] show ?case by simp
qed

lemma ref_gesv_lengths:
  "length (fst (ref_gesv n nrhs A lda p b ldb)) = length A \<and>
   length (fst (snd (ref_gesv n nrhs A lda p b ldb))) = length p \<and>
   length (fst (snd (snd (ref_gesv n nrhs A lda p b ldb)))) = length b"
proof -
  obtain LU q i where e: "lu_factor (nat n) A (nat lda) (nat n) p 0 = (LU, q, i)"
    by (cases "lu_factor (nat n) A (nat lda) (nat n) p 0") auto
  from lu_factor_lengths [OF e] show ?thesis
    by (simp add: ref_gesv_def e Let_def)
qed

lemma length_ref_axpy [simp]: "length (ref_axpy n al u v) = length v"
  by (simp add: ref_axpy_def)

lemma length_ref_gemv [simp]: "length (ref_gemv t m n al A lda u be v) = length v"
  by (simp add: ref_gemv_def Let_def)

lemma length_ref_gemm [simp]: "length (ref_gemm ta tb m n k al A lda C ldb be E ldc) = length E"
  by (simp add: ref_gemm_def Let_def)

lemma blas_ok_ref_blas: "blas_ok ref_blas"
  unfolding blas_ok_def by (simp add: ref_blas_def ref_gesv_lengths)

lemma ex_a0_init: "aa_init (\<lambda>i. True) 2 2 1 = Some ex_a0"
  by code_simp

lemma ex_off_init: "aa_init (\<lambda>i. True) 2 0 1 = Some ex_off"
  by code_simp

lemma work_ok_ex_a0: "work_ok ex_a0"
  by (simp add: work_ok_def ex_a0_def)

lemma work_ok_ex_a1: "work_ok ex_a1"
  by (simp add: work_ok_def ex_a1_def)

lemma ex_call0: "aa_apply ref_blas 10000 [1, 2] [2, 4] ex_a0 = Some (0, [1, 2], ex_a1)"
  by code_simp

lemma run_disabled: "aw_k a \<le> 0 \<Longrightarrow> run B mx cs a = Some a"
  by (induction cs) (simp_all add: aa_apply_disabled)

lemma aa_init_disabled:
  "aa_init al l k t = Some a \<Longrightarrow> k \<le> 0 \<Longrightarrow> aw_k a = k \<and> aw_iter a = 0"
  by (auto simp: aa_init_def Let_def split: if_splits)

lemma aa_apply_eval:
  fixes B :: "('a::{zero,one,uminus,ord}) blas"
  assumes ok: "work_ok a" and bo: "blas_ok B"
    and lx: "length x = nat (aw_l a)" and lf: "length f = nat (aw_l a)"
    and it: "aw_iter a \<noteq> 0"
    and u: "update_accel_params B x f a = Some a1"
    and r: "solve_system B a1 (min (aw_iter a) (aw_k a)) = Some (A, p, w, info)"
    and d: "aw_D a1 = Some D"
  shows "aa_apply B mx f x a =
       Some (if info < 0 \<or> mx \<le> nrm2 B (aw_k a) w
             then (- 1, f, a1\<lparr>aw_iter := aw_iter a + 1, aw_M := Some A,
                                 aw_work := Some w, aw_ipiv := Some p\<rparr>)
             else (info,
                   gemv B ''NoTrans'' (aw_l a) (min (aw_iter a) (aw_k a)) (- 1) D (aw_l a) w 1 f,
                   a1\<lparr>aw_iter := aw_iter a + 1, aw_M := Some A,
                        aw_work := Some w, aw_ipiv := Some p\<rparr>))"
proof -
  obtain a1' A' p' w' info' D' where
    u': "update_accel_params B x f a = Some a1'"
    and r': "solve_system B a1' (min (aw_iter a) (aw_k a)) = Some (A', p', w', info')"
    and d': "aw_D a1' = Some D'"
    and e: "aa_apply B mx f x a =
       Some (if info' < 0 \<or> mx \<le> nrm2 B (aw_k a) w'
             then (- 1, f, a1'\<lparr>aw_iter := aw_iter a + 1, aw_M := Some A',
                                 aw_work := Some w', aw_ipiv := Some p'\<rparr>)
             else (info',
                   gemv B ''NoTrans'' (aw_l a) (min (aw_iter a) (aw_k a)) (- 1) D' (aw_l a) w' 1 f,
                   a1'\<lparr>aw_iter := aw_iter a + 1, aw_M := Some A',
                        aw_work := Some w', aw_ipiv := Some p'\<rparr>))"
    by (rule aa_apply_post_warmup [OF ok bo lx lf it])
  have "a1' = a1" using u u' by simp
  moreover from this have "A' = A" "p' = p" "w' = w" "info' = info" "D' = D"
    using r r' d d' by simp_all
  ultimately show ?thesis using e by simp
qed

lemma ex_update2: "update_accel_params ref_blas [1, 2] [1 / 2, 1] ex_a1 = Some ex_u2"
  by code_simp

lemma ex_system2:
  "solve_system ref_blas ex_u2 1 = Some ([10, - 5, - 5, 5 / 2], [1, 0], [1 / 2, 0], 0)"
  by code_simp

lemma ex_nrm2_accept: "nrm2 ref_blas 2 [1 / 2, 0] = 1 / 2"
  by (simp add: ref_blas_def ref_nrm2_def numeral_2_eq_2 real_sqrt_divide)

lemma ex_nrm2_reject: "nrm2 ref_blas 2 [10000, 0] = 10000"
  by (simp add: ref_blas_def ref_nrm2_def numeral_2_eq_2)

lemma ex_correction2:
  "gemv ref_blas ''NoTrans'' 2 1 (- 1) [1, 2, - (1 / 2), - 1] 2 [1 / 2, 0] 1 [1 / 2, 1] = [0, 0]"
  by code_simp

lemma ex_a1_fields: "aw_iter ex_a1 = 1" "aw_k ex_a1 = 2" "aw_l ex_a1 = 2"
  by (simp_all add: ex_a1_def)

lemma ex_call1: "aa_apply ref_blas 10000 [1 / 2, 1] [1, 2] ex_a1 = Some (0, [0, 0], ex_a2)"
proof -
  have "aa_apply ref_blas 10000 [1 / 2, 1] [1, 2] ex_a1 =
       Some (if (0::int) < 0 \<or> 10000 \<le> nrm2 ref_blas (aw_k ex_a1) [1 / 2, 0]
             then (- 1, [1 / 2, 1], ex_u2\<lparr>aw_iter := aw_iter ex_a1 + 1,
                    aw_M := Some [10, - 5, - 5, 5 / 2],
                    aw_work := Some [1 / 2, 0], aw_ipiv := Some [1, 0]\<rparr>)
             else (0,
                   gemv ref_blas ''NoTrans'' (aw_l ex_a1) (min (aw_iter ex_a1) (aw_k ex_a1)) (- 1)
                     [1, 2, - (1 / 2), - 1] (aw_l ex_a1) [1 / 2, 0] 1 [1 / 2, 1],
                   ex_u2\<lparr>aw_iter := aw_iter ex_a1 + 1, aw_M := Some [10, - 5, - 5, 5 / 2],
                        aw_work := Some [1 / 2, 0], aw_ipiv := Some [1, 0]\<rparr>))"
    by (rule aa_apply_eval [OF work_ok_ex_a1 blas_ok_ref_blas _ _ _ ex_update2])
      (simp_all add: ex_a1_fields ex_system2, simp add: ex_u2_def)
  then show ?thesis
    by (simp add: ex_a1_fields ex_nrm2_accept ex_correction2 ex_a2_def)
qed

lemma ex_update2r: "update_accel_params ref_blas [50000, 0] [0, 0] ex_a1 =
    Some (ex_r2\<lparr>aw_iter := 1, aw_M := Some [10, 49990, 99990, 2499850010],
                 aw_work := Some [0, 0], aw_ipiv := Some [0, 0]\<rparr>)"
  by code_simp

lemma ex_system2r:
  "solve_system ref_blas (ex_r2\<lparr>aw_iter := 1, aw_M := Some [10, 49990, 99990, 2499850010],
                 aw_work := Some [0, 0], aw_ipiv := Some [0, 0]\<rparr>) 1 =
     Some ([10, 49990, 99990, 2499850010], [1, 0], [10000, 0], 0)"
  by code_simp

lemma ex_call1_rejected:
  "aa_apply ref_blas 10000 [0, 0] [50000, 0] ex_a1 = Some (- 1, [0, 0], ex_r2)"
proof -
  let ?u = "ex_r2\<lparr>aw_iter := 1, aw_M := Some [10, 49990, 99990, 2499850010],
                 aw_work := Some [0, 0], aw_ipiv := Some [0, 0]\<rparr>"
  have "aa_apply ref_blas 10000 [0, 0] [50000, 0] ex_a1 =
       Some (if (0::int) < 0 \<or> 10000 \<le> nrm2 ref_blas (aw_k ex_a1) [10000, 0]
             then (- 1, [0, 0], ?u\<lparr>aw_iter := aw_iter ex_a1 + 1,
                    aw_M := Some [10, 49990, 99990, 2499850010],
                    aw_work := Some [10000, 0], aw_ipiv := Some [1, 0]\<rparr>)
             else (0,
                   gemv ref_blas ''NoTrans'' (aw_l ex_a1) (min (aw_iter ex_a1) (aw_k ex_a1)) (- 1)
                     [1, 2, - 1, - 2] (aw_l ex_a1) [10000, 0] 1 [0, 0],
                   ?u\<lparr>aw_iter := aw_iter ex_a1 + 1,
                    aw_M := Some [10, 49990, 99990, 2499850010],
                    aw_work := Some [10000, 0], aw_ipiv := Some [1, 0]\<rparr>))"
    by (rule aa_apply_eval [OF work_ok_ex_a1 blas_ok_ref_blas _ _ _ ex_update2r])
      (simp_all add: ex_a1_fields ex_system2r, simp add: ex_r2_def)
  then show ?thesis
    by (simp add: ex_a1_fields ex_nrm2_reject ex_r2_def)
qed

lemma ex_identity_call0: "aa_apply ref_blas 10000 [1, 2] [1, 2] ex_a0 = Some (0, [1, 2], ex_i1)"
  by code_simp

lemma work_ok_ex_i1: "work_ok ex_i1"
  by (simp add: work_ok_def ex_i1_def)

lemma ex_identity_update:
  "update_accel_params ref_blas [1, 2] [1, 2] ex_i1 = Some (ex_i2\<lparr>aw_iter := 1, aw_ipiv := Some [0, 0]\<rparr>)"
  by code_simp

lemma ex_identity_system:
  "solve_system ref_blas (ex_i2\<lparr>aw_iter := 1, aw_ipiv := Some [0, 0]\<rparr>) 1
     = Some ([0, 0, 0, 0], [1, 0], [0, 0], 1)"
  by code_simp

lemma ex_nrm2_zero: "nrm2 ref_blas 2 [0, 0] = 0"
  by (simp add: ref_blas_def ref_nrm2_def numeral_2_eq_2)

lemma ex_identity_correction:
  "gemv ref_blas ''NoTrans'' 2 1 (- 1) [1, 2, 0, 0] 2 [0, 0] 1 [1, 2] = [1, 2]"
  by code_simp

lemma ex_i1_fields: "aw_iter ex_i1 = 1" "aw_k ex_i1 = 2" "aw_l ex_i1 = 2"
  by (simp_all add: ex_i1_def)

lemma ex_system2_full:
  "solve_system ref_blas ex_u2 2 = Some ([10, - (1 / 2), - 5, 0], [1, 2], [5, - (5 / 2)], 2)"
  by code_simp

lemma solve_guard_decides_status:
  fixes B :: "('a::{zero,one,uminus,ord}) blas"
  assumes ok: "work_ok a" and bo: "blas_ok B"
    and lx: "length x = nat (aw_l a)" and lf: "length f = nat (aw_l a)"
    and it: "1 \<le> aw_iter a"
  shows "\<exists>a1 A p w info D st f' a'.
     update_accel_params B x f a = Some a1 \<and>
     solve_system B a1 (min (aw_iter a) (aw_k a)) = Some (A, p, w, info) \<and>
     aw_D a1 = Some D \<and>
     aa_apply B mx f x a = Some (st, f', a') \<and>
     (st < 0) = (info < 0 \<or> mx \<le> nrm2 B (aw_k a) w) \<and>
     (if st < 0 then st = - 1 \<and> f' = f
      else st = info \<and> 0 \<le> info \<and>
           f' = gemv B ''NoTrans'' (aw_l a) (min (aw_iter a) (aw_k a)) (- 1) D (aw_l a) w 1 f)"
proof -
  have it0: "aw_iter a \<noteq> 0" using it by simp
  obtain a1 A p w info D where
    u: "update_accel_params B x f a = Some a1"
    and r: "solve_system B a1 (min (aw_iter a) (aw_k a)) = Some (A, p, w, info)"
    and d: "aw_D a1 = Some D"
    and e: "aa_apply B mx f x a =
       Some (if info < 0 \<or> mx \<le> nrm2 B (aw_k a) w
             then (- 1, f, a1\<lparr>aw_iter := aw_iter a + 1, aw_M := Some A,
                                 aw_work := Some w, aw_ipiv := Some p\<rparr>)
             else (info,
                   gemv B ''NoTrans'' (aw_l a) (min (aw_iter a) (aw_k a)) (- 1) D (aw_l a) w 1 f,
                   a1\<lparr>aw_iter := aw_iter a + 1, aw_M := Some A,
                        aw_work := Some w, aw_ipiv := Some p\<rparr>))"
    by (rule aa_apply_post_warmup [OF ok bo lx lf it0])
  show ?thesis
  proof (cases "info < 0 \<or> mx \<le> nrm2 B (aw_k a) w")
    case True
    with u r d e show ?thesis by simp
  next
    case False
    then have "0 \<le> info" by simp
    with False u r d e show ?thesis by simp
  qed
qed

lemma col_put_col_same:
  "j * l + l \<le> length A \<Longrightarrow> length v = l \<Longrightarrow> col (put_col A l j v) l j = v"
  by (simp add: col_def put_col_def)

lemma col_put_col_other:
  assumes "c \<noteq> j" and "length v = l" and "j * l + l \<le> length A"
  shows "col (put_col A l j v) l c = col A l c"
proof (cases "c < j")
  case True
  then have "Suc c \<le> j" by simp
  then have "Suc c * l \<le> j * l" by (rule mult_le_mono1)
  then have b: "c * l + l \<le> j * l" by simp
  then have m: "min l (j * l - c * l) = l" by simp
  have "c * l \<le> j * l" using True by (intro mult_le_mono1) simp
  then have z: "c * l - j * l = 0" by (simp only: diff_is_0_eq)
  have "drop (c * l) (take (j * l) A @ v @ drop (j * l + l) A)
      = take (j * l - c * l) (drop (c * l) A) @ v @ drop (j * l + l) A"
    using assms(3) b by (simp add: drop_take z)
  moreover have "l \<le> length (take (j * l - c * l) (drop (c * l) A))"
    using assms(3) b by simp
  ultimately show ?thesis by (simp add: col_def put_col_def m)
next
  case False
  with assms have "Suc j \<le> c" by simp
  then have "Suc j * l \<le> c * l" by (rule mult_le_mono1)
  then have b: "j * l + l \<le> c * l" by simp
  then obtain e where e: "c * l = j * l + l + e" by (metis le_Suc_ex)
  have "drop (c * l) (take (j * l) A @ v @ drop (j * l + l) A) = drop e (drop (j * l + l) A)"
    using assms(2,3) unfolding e by simp
  then show ?thesis by (simp add: col_def put_col_def e add.commute)
qed

lemma aa_apply_history:
  fixes B :: "('a::{zero,one,uminus,ord}) blas"
  assumes ok: "work_ok a" and bo: "blas_ok B"
    and lx: "length x = nat (aw_l a)" and lf: "length f = nat (aw_l a)"
    and e: "aa_apply B mx f x a = Some (st, f', a')"
  shows "work_ok a'" and "aw_iter a' = aw_iter a + 1" and "aw_k a' = aw_k a"
    and "aw_l a' = aw_l a" and "aw_type1 a' = aw_type1 a"
    and "hist_col a' (nat (aw_iter a mod aw_k a)) = cur_diffs a'"
    and "cur_diffs a' \<noteq> None"
    and "\<And>c. c < nat (aw_k a) \<Longrightarrow> c \<noteq> nat (aw_iter a mod aw_k a) \<Longrightarrow>
           hist_col a' c = hist_col a c"
proof -
  have k: "0 < aw_k a" and lp: "0 < aw_l a" and i0: "0 \<le> aw_iter a"
    using ok by (simp_all add: work_ok_def)
  obtain xp fp gp Y S D M where p: "aw_x a = Some xp" "aw_f a = Some fp"
    "aw_g_prev a = Some gp" "aw_Y a = Some Y" "aw_S a = Some S" "aw_D a = Some D"
    "aw_M a = Some M"
    and len: "length Y = nat (aw_l a * aw_k a)" "length S = nat (aw_l a * aw_k a)"
      "length D = nat (aw_l a * aw_k a)"
    using ok unfolding work_ok_def by (auto dest!: has_lenD)
  have ax: "\<And>n al u v. length (axpy B n al u v) = length v"
    using bo by (simp add: blas_ok_def)
  define j where "j = nat (aw_iter a mod aw_k a)"
  define l where "l = nat (aw_l a)"
  have cb: "j * l + l \<le> nat (aw_l a * aw_k a)"
    unfolding j_def l_def by (rule col_bound [OF k lp i0])
  note eq = update_accel_params_eq [OF ok bo lx lf p]
  obtain a1 st1 f1 A q w where u: "update_accel_params B x f a = Some a1"
    and e1: "aa_apply B mx f x a =
       Some (st1, f1, a1\<lparr>aw_iter := aw_iter a + 1, aw_M := Some A, aw_work := Some w,
                          aw_ipiv := Some q\<rparr>)"
    and ln: "length A = nat (aw_k a * aw_k a)" "length w = nat (aw_k a)"
      "length q = nat (aw_k a)"
    by (rule aa_apply_state [OF ok bo lx lf])
  obtain a1' where u': "update_accel_params B x f a = Some a1'" and ok1: "work_ok a1'"
    and fr: "aw_iter a1' = aw_iter a" "aw_k a1' = aw_k a" "aw_l a1' = aw_l a"
      "aw_type1 a1' = aw_type1 a"
    by (rule update_accel_params_work_ok [OF ok bo lx lf])
  have a1': "a1' = a1" using u u' by simp
  note ok1 = ok1 [unfolded a1'] and fr = fr [unfolded a1']
  have a': "a' = a1\<lparr>aw_iter := aw_iter a + 1, aw_M := Some A, aw_work := Some w,
                          aw_ipiv := Some q\<rparr>"
    using e e1 by simp
  show "work_ok a'" using ok1 ln fr i0 unfolding a' by (simp add: work_ok_def)
  show "aw_iter a' = aw_iter a + 1" "aw_k a' = aw_k a" "aw_l a' = aw_l a"
    "aw_type1 a' = aw_type1 a"
    unfolding a' using fr by simp_all
  have a1: "a1 = the (update_accel_params B x f a)" using u by simp
  have lens: "length (axpy B (aw_l a) (- 1) gp (axpy B (aw_l a) (- 1) f x)) = l"
    "length (axpy B (aw_l a) (- 1) xp x) = l" "length (axpy B (aw_l a) (- 1) fp f) = l"
    by (simp_all add: ax lx lf l_def)
  show "hist_col a' (nat (aw_iter a mod aw_k a)) = cur_diffs a'"
    unfolding a' a1 eq using cb lens len
    by (simp add: hist_col_def cur_diffs_def col_put_col_same j_def [symmetric] l_def [symmetric])
  show "cur_diffs a' \<noteq> None"
    unfolding a' a1 eq by (simp add: cur_diffs_def)
  fix c
  assume "c < nat (aw_k a)" and "c \<noteq> nat (aw_iter a mod aw_k a)"
  then show "hist_col a' c = hist_col a c"
    unfolding a' a1 eq using cb lens len
    by (simp add: hist_col_def p col_put_col_other j_def [symmetric] l_def [symmetric])
qed

lemma calls_ok_Cons [simp]:
  "calls_ok l (c # cs) = (length (fst c) = nat l \<and> length (snd c) = nat l \<and> calls_ok l cs)"
  by (simp add: calls_ok_def)

lemma calls_ok_Nil [simp]: "calls_ok l []"
  by (simp add: calls_ok_def)

lemma calls_ok_append [simp]: "calls_ok l (cs @ ds) = (calls_ok l cs \<and> calls_ok l ds)"
  by (simp add: calls_ok_def)

lemma aa_apply_total:
  fixes B :: "('a::{zero,one,uminus,ord}) blas"
  assumes ok: "work_ok a" and bo: "blas_ok B"
    and lx: "length x = nat (aw_l a)" and lf: "length f = nat (aw_l a)"
  obtains st f' a' where "aa_apply B mx f x a = Some (st, f', a')"
proof -
  obtain a1 st f' A p w where
    "aa_apply B mx f x a =
       Some (st, f', a1\<lparr>aw_iter := aw_iter a + 1, aw_M := Some A, aw_work := Some w,
                          aw_ipiv := Some p\<rparr>)"
    by (rule aa_apply_state [OF ok bo lx lf])
  then show ?thesis by (rule that)
qed

lemma run_work_ok:
  fixes B :: "('a::{zero,one,uminus,ord}) blas"
  assumes "work_ok a" and "blas_ok B" and "calls_ok (aw_l a) cs"
  shows "\<exists>a'. run B mx cs a = Some a' \<and> work_ok a' \<and>
           aw_iter a' = aw_iter a + int (length cs) \<and> aw_k a' = aw_k a \<and>
           aw_l a' = aw_l a \<and> aw_type1 a' = aw_type1 a"
  using assms
proof (induction cs arbitrary: a)
  case Nil
  then show ?case by simp
next
  case (Cons c cs)
  from Cons.prems have lx: "length (fst c) = nat (aw_l a)" and lf: "length (snd c) = nat (aw_l a)"
    and rest: "calls_ok (aw_l a) cs"
    by simp_all
  obtain st f' a1 where e: "aa_apply B mx (snd c) (fst c) a = Some (st, f', a1)"
    by (rule aa_apply_total [OF Cons.prems(1,2) lx lf])
  note h = aa_apply_history [OF Cons.prems(1,2) lx lf e]
  from Cons.IH [OF h(1) Cons.prems(2)] rest h(4)
  obtain a' where "run B mx cs a1 = Some a'" "work_ok a'"
    "aw_iter a' = aw_iter a1 + int (length cs)" "aw_k a' = aw_k a1" "aw_l a' = aw_l a1"
    "aw_type1 a' = aw_type1 a1"
    by auto
  with h(2-5) e show ?case by simp
qed

lemma run_keeps_column:
  fixes B :: "('a::{zero,one,uminus,ord}) blas"
  assumes "work_ok a" and "blas_ok B" and "calls_ok (aw_l a) cs"
    and "run B mx cs a = Some a'" and "c < nat (aw_k a)"
    and "\<And>t. t < length cs \<Longrightarrow> nat ((aw_iter a + int t) mod aw_k a) \<noteq> c"
  shows "hist_col a' c = hist_col a c"
  using assms
proof (induction cs arbitrary: a)
  case Nil
  then show ?case by simp
next
  case (Cons d cs)
  from Cons.prems have lx: "length (fst d) = nat (aw_l a)" and lf: "length (snd d) = nat (aw_l a)"
    and rest: "calls_ok (aw_l a) cs"
    by simp_all
  obtain st f' a1 where e: "aa_apply B mx (snd d) (fst d) a = Some (st, f', a1)"
    by (rule aa_apply_total [OF Cons.prems(1,2) lx lf])
  note h = aa_apply_history [OF Cons.prems(1,2) lx lf e]
  have r: "run B mx cs a1 = Some a'" using Cons.prems(4) e by simp
  have c0: "c \<noteq> nat (aw_iter a mod aw_k a)" using Cons.prems(6) [of 0] by auto
  have "hist_col a' c = hist_col a1 c"
  proof (rule Cons.IH [OF h(1) Cons.prems(2) _ r])
    show "calls_ok (aw_l a1) cs" using rest h(4) by simp
    show "c < nat (aw_k a1)" using Cons.prems(5) h(3) by simp
    fix t
    assume "t < length cs"
    then have "nat ((aw_iter a + int (Suc t)) mod aw_k a) \<noteq> c"
      using Cons.prems(6) [of "Suc t"] by simp
    moreover have "aw_iter a1 + int t = aw_iter a + int (Suc t)" by (simp add: h(2))
    ultimately show "nat ((aw_iter a1 + int t) mod aw_k a1) \<noteq> c"
      unfolding h(3) by metis
  qed
  also have "\<dots> = hist_col a c" by (rule h(8) [OF Cons.prems(5) c0])
  finally show ?case .
qed

lemma run_snoc:
  "run B mx (cs @ [c]) a =
     (case run B mx cs a of
        None \<Rightarrow> None
      | Some b \<Rightarrow> map_option (\<lambda>r. snd (snd r)) (aa_apply B mx (snd c) (fst c) b))"
proof (induction cs arbitrary: a)
  case Nil
  then show ?case by (simp split: option.splits)
next
  case (Cons d cs)
  then show ?case by (simp split: option.splits)
qed

lemma mod_shift_neq:
  fixes n k d :: int
  assumes "0 < d" and "d < k" and "0 \<le> n"
  shows "nat ((n + d) mod k) \<noteq> nat (n mod k)"
proof
  assume "nat ((n + d) mod k) = nat (n mod k)"
  moreover have "0 \<le> (n + d) mod k" "0 \<le> n mod k" using assms by simp_all
  ultimately have "(n + d) mod k = n mod k" by simp
  then have "k dvd (n + d) - n" by (simp add: mod_eq_dvd_iff)
  then have "k dvd d" by simp
  with assms show False by (simp add: zdvd_not_zless)
qed

lemma ref_axpy_neg:
  fixes u v :: "('a::ring_1) list"
  assumes "length u = nat n" and "length v = nat n"
  shows "ref_axpy n (- 1) u v = vsub v u"
proof -
  have "map2 (\<lambda>ui vi. - 1 * ui + vi) u v = map2 (\<lambda>a b. a - b) v u"
  proof (rule nth_equalityI)
    show "length (map2 (\<lambda>ui vi. - 1 * ui + vi) u v) = length (map2 (\<lambda>a b. a - b) v u)"
      using assms by simp
    fix i
    assume "i < length (map2 (\<lambda>ui vi. - 1 * ui + vi) u v)"
    then have "i < length u" "i < length v" by simp_all
    then show "map2 (\<lambda>ui vi. - 1 * ui + vi) u v ! i = map2 (\<lambda>a b. a - b) v u ! i"
      by simp
  qed
  moreover have "ref_axpy n (- 1) u v = map2 (\<lambda>ui vi. - 1 * ui + vi) u v"
    using assms unfolding ref_axpy_def by (simp del: mult_minus1 mult_minus_left)
  ultimately show ?thesis by (simp only: vsub_def)
qed

lemma length_vsub [simp]: "length (vsub u v) = min (length u) (length v)"
  by (simp add: vsub_def)

lemma fits_exact:
  assumes "0 < r" and "0 < c" and "length A = nat (r * c)"
  shows "fits A r r c"
proof -
  obtain m where m: "nat c = Suc m" using assms(2) by (cases "nat c") simp_all
  have "nat (r * c) = nat r * nat c" using assms by (simp add: nat_mult_distrib)
  then show ?thesis using assms(3) by (simp add: fits_def m)
qed

lemma ref_gemm_gram:
  fixes A C E :: "('a::semiring_1) list"
  assumes l: "0 < l" and k: "0 < k"
    and lA: "length A = nat (l * k)" and lC: "length C = nat (l * k)"
    and lE: "length E = nat (k * k)"
  shows "ref_gemm ''Trans'' ''No'' k k l 1 A l C l 0 E k = gram A C (nat l) (nat k)"
proof -
  note f1 = fits_exact [OF l k lA] fits_exact [OF l k lC] fits_exact [OF k k lE]
  have kk: "nat (k * k) = nat k * nat k" using k by (simp add: nat_mult_distrib)
  have "map (\<lambda>e. let i = e mod nat k; j = e div nat k in
               if i < nat k \<and> j < nat k
               then 1 * sum_list (map (\<lambda>p. (A ! (p + i * nat l)) * (C ! (p + j * nat l)))
                      [0..<nat l]) + 0 * E ! e
               else E ! e) [0..<length E]
      = gram A C (nat l) (nat k)"
    unfolding gram_def lE kk
  proof (rule map_cong [OF refl])
    fix e
    assume "e \<in> set [0..<nat k * nat k]"
    then have "e < nat k * nat k" by simp
    then have "e div nat k < nat k" by (simp add: less_mult_imp_div_less)
    moreover have "e mod nat k < nat k" using k by simp
    ultimately show "(let i = e mod nat k; j = e div nat k in
               if i < nat k \<and> j < nat k
               then 1 * sum_list (map (\<lambda>p. (A ! (p + i * nat l)) * (C ! (p + j * nat l)))
                      [0..<nat l]) + 0 * E ! e
               else E ! e)
        = sum_list (map (\<lambda>p. A ! (p + (e mod nat k) * nat l) * C ! (p + (e div nat k) * nat l))
            [0..<nat l])"
      by (simp add: Let_def)
  qed
  moreover have "ref_gemm ''Trans'' ''No'' k k l 1 A l C l 0 E k
      = map (\<lambda>e. let i = e mod nat k; j = e div nat k in
               if i < nat k \<and> j < nat k
               then 1 * sum_list (map (\<lambda>p. (A ! (p + i * nat l)) * (C ! (p + j * nat l)))
                      [0..<nat l]) + 0 * E ! e
               else E ! e) [0..<length E]"
    using l k f1 unfolding ref_gemm_def is_trans_def is_notrans_def
    by (simp add: Let_def del: mult_1 mult_zero_left)
  ultimately show ?thesis by simp
qed

lemma work_ok_ex_a2: "work_ok ex_a2"
  by (simp add: work_ok_def ex_a2_def ex_u2_def)

lemma ex_update3:
  "update_accel_params ref_blas [0, 0] [0, 0] ex_a2 =
     Some (ex_a3\<lparr>aw_iter := 2, aw_M := Some [5 / 2, 5 / 2, 5 / 2, 5 / 2],
                 aw_work := Some [1 / 2, 0], aw_ipiv := Some [1, 0]\<rparr>)"
  by code_simp

lemma ex_system3:
  "solve_system ref_blas (ex_a3\<lparr>aw_iter := 2, aw_M := Some [5 / 2, 5 / 2, 5 / 2, 5 / 2],
                 aw_work := Some [1 / 2, 0], aw_ipiv := Some [1, 0]\<rparr>) 2
     = Some ([5 / 2, 1, 5 / 2, 0], [1, 2], [0, 0], 2)"
  by code_simp

lemma ex_correction3:
  "gemv ref_blas ''NoTrans'' 2 2 (- 1) [- (1 / 2), - 1, - (1 / 2), - 1] 2 [0, 0] 1 [0, 0] = [0, 0]"
  by code_simp

lemma ex_a2_fields: "aw_iter ex_a2 = 2" "aw_k ex_a2 = 2" "aw_l ex_a2 = 2"
  by (simp_all add: ex_a2_def ex_u2_def)

lemma ex_call2: "aa_apply ref_blas 10000 [0, 0] [0, 0] ex_a2 = Some (2, [0, 0], ex_a3)"
proof -
  let ?u = "ex_a3\<lparr>aw_iter := 2, aw_M := Some [5 / 2, 5 / 2, 5 / 2, 5 / 2],
                 aw_work := Some [1 / 2, 0], aw_ipiv := Some [1, 0]\<rparr>"
  have "aa_apply ref_blas 10000 [0, 0] [0, 0] ex_a2 =
       Some (if (2::int) < 0 \<or> 10000 \<le> nrm2 ref_blas (aw_k ex_a2) [0, 0]
             then (- 1, [0, 0], ?u\<lparr>aw_iter := aw_iter ex_a2 + 1,
                    aw_M := Some [5 / 2, 1, 5 / 2, 0],
                    aw_work := Some [0, 0], aw_ipiv := Some [1, 2]\<rparr>)
             else (2,
                   gemv ref_blas ''NoTrans'' (aw_l ex_a2) (min (aw_iter ex_a2) (aw_k ex_a2)) (- 1)
                     [- (1 / 2), - 1, - (1 / 2), - 1] (aw_l ex_a2) [0, 0] 1 [0, 0],
                   ?u\<lparr>aw_iter := aw_iter ex_a2 + 1,
                    aw_M := Some [5 / 2, 1, 5 / 2, 0],
                    aw_work := Some [0, 0], aw_ipiv := Some [1, 2]\<rparr>))"
    by (rule aa_apply_eval [OF work_ok_ex_a2 blas_ok_ref_blas _ _ _ ex_update3])
      (simp_all add: ex_a2_fields ex_system3, simp add: ex_a3_def)
  then show ?thesis
    by (simp add: ex_a2_fields ex_nrm2_zero ex_correction3 ex_a3_def)
qed

lemma ex_a0_fields: "aw_iter ex_a0 = 0" "aw_k ex_a0 = 2" "aw_l ex_a0 = 2"
  by (simp_all add: ex_a0_def)

lemma aa_init_null_iff: "aa_init al l k t = None \<longleftrightarrow> \<not> al 0"
  by (simp add: aa_init_def Let_def)

lemma ref_blas_fields:
  "axpy ref_blas = ref_axpy" "gemm ref_blas = ref_gemm" "gemv ref_blas = ref_gemv"
  "gesv ref_blas = ref_gesv" "nrm2 ref_blas = ref_nrm2"
  by (simp_all add: ref_blas_def)

lemma vsub_append:
  "length u1 = length v1 \<Longrightarrow> vsub (u1 @ u2) (v1 @ v2) = vsub u1 v1 @ vsub u2 v2"
  by (simp add: vsub_def)

lemma vsub_take: "vsub (take n u) (take n v) = take n (vsub u v)"
  by (simp add: vsub_def take_zip take_map)

lemma vsub_drop: "vsub (drop n u) (drop n v) = drop n (vsub u v)"
  by (simp add: vsub_def drop_zip drop_map)

lemma vsub_put_col:
  assumes "length S = length Y" and "length s = length y"
  shows "vsub (put_col S l j s) (put_col Y l j y) = put_col (vsub S Y) l j (vsub s y)"
  using assms by (simp add: put_col_def vsub_append vsub_take vsub_drop)

lemma vsub_telescope:
  fixes x :: "('a::ab_group_add) list"
  assumes "length x = n" "length f = n" "length xp = n" "length fp = n"
  shows "vsub (vsub x xp) (vsub (vsub x f) (vsub xp fp)) = vsub f fp"
proof (rule nth_equalityI)
  show "length (vsub (vsub x xp) (vsub (vsub x f) (vsub xp fp))) = length (vsub f fp)"
    using assms by simp
  fix i
  assume "i < length (vsub (vsub x xp) (vsub (vsub x f) (vsub xp fp)))"
  then have "i < n" using assms by simp
  then show "vsub (vsub x xp) (vsub (vsub x f) (vsub xp fp)) ! i = vsub f fp ! i"
    using assms by (simp add: vsub_def)
qed

lemma vsub_zero: "vsub (replicate n (0::'a::group_add)) (replicate n 0) = replicate n 0"
  by (simp add: vsub_def zip_replicate)

lemma col_replicate:
  assumes "j < k"
  shows "col (replicate (l * k) z) l j = replicate l z"
proof -
  have "Suc j * l \<le> k * l" using assms by (intro mult_le_mono1) simp
  then have "l \<le> l * k - j * l" by (simp add: mult.commute)
  then show ?thesis by (simp add: col_def min_def)
qed

lemma aa_init_work_ok:
  fixes a :: "('a::group_add) AaWork"
  assumes init: "aa_init al l k t = Some a" and al: "\<forall>i<14. al i"
    and k: "0 < k" and l: "0 < l"
  shows "work_ok a" and "aw_iter a = 0" and "aw_k a = k" and "aw_l a = l"
    and "aw_type1 a = t" and "diff_inv a" and "zero_from a"
proof -
  have a: "a = \<lparr>aw_type1 = t, aw_k = k, aw_l = l, aw_iter = 0,
      aw_x = Some (replicate (nat l) 0), aw_f = Some (replicate (nat l) 0),
      aw_g = Some (replicate (nat l) 0), aw_g_prev = Some (replicate (nat l) 0),
      aw_y = Some (replicate (nat l) 0), aw_s = Some (replicate (nat l) 0),
      aw_d = Some (replicate (nat l) 0),
      aw_Y = Some (replicate (nat (l * k)) 0), aw_S = Some (replicate (nat (l * k)) 0),
      aw_D = Some (replicate (nat (l * k)) 0), aw_M = Some (replicate (nat (k * k)) 0),
      aw_work = Some (replicate (nat k) 0), aw_ipiv = Some (replicate (nat k) 0)\<rparr>"
    using init al k l by (simp add: aa_init_def calloc_def Let_def)
  show "work_ok a" using k l by (simp add: a work_ok_def)
  show "aw_iter a = 0" "aw_k a = k" "aw_l a = l" "aw_type1 a = t" by (simp_all add: a)
  show "diff_inv a" by (simp add: a diff_inv_def vsub_zero)
  have lk: "nat (l * k) = nat l * nat k" using k l by (simp add: nat_mult_distrib)
  show "zero_from a"
    by (simp add: a zero_from_def hist_col_def lk col_replicate)
qed

lemma aa_apply_diff_inv:
  fixes B :: "('a::{ring_1,ord}) blas"
  assumes ok: "work_ok a" and bo: "blas_ok B" and ax: "axpy B = ref_axpy"
    and lx: "length x = nat (aw_l a)" and lf: "length f = nat (aw_l a)"
    and inv: "diff_inv a"
    and e: "aa_apply B mx f x a = Some (st, f', a')"
  shows "diff_inv a'"
proof -
  have k: "0 < aw_k a" and lp: "0 < aw_l a" and i0: "0 \<le> aw_iter a"
    using ok by (simp_all add: work_ok_def)
  obtain xp fp gp Y S D M where p: "aw_x a = Some xp" "aw_f a = Some fp"
    "aw_g_prev a = Some gp" "aw_Y a = Some Y" "aw_S a = Some S" "aw_D a = Some D"
    "aw_M a = Some M"
    and len: "length xp = nat (aw_l a)" "length fp = nat (aw_l a)" "length gp = nat (aw_l a)"
      "length Y = nat (aw_l a * aw_k a)" "length S = nat (aw_l a * aw_k a)"
      "length D = nat (aw_l a * aw_k a)"
    using ok unfolding work_ok_def by (auto dest!: has_lenD)
  have D: "D = vsub S Y" and gp: "gp = vsub xp fp"
    using inv by (simp_all add: diff_inv_def p)
  have g: "axpy B (aw_l a) (- 1) f x = vsub x f"
    and s: "axpy B (aw_l a) (- 1) xp x = vsub x xp"
    and d: "axpy B (aw_l a) (- 1) fp f = vsub f fp"
    by (simp_all add: ax ref_axpy_neg lx lf len)
  have y: "axpy B (aw_l a) (- 1) gp (vsub x f) = vsub (vsub x f) gp"
    by (simp add: ax ref_axpy_neg lx lf len)
  note eq = update_accel_params_eq [OF ok bo lx lf p, unfolded g s d y]
  obtain a1 st1 f1 A q w where u: "update_accel_params B x f a = Some a1"
    and e1: "aa_apply B mx f x a =
       Some (st1, f1, a1\<lparr>aw_iter := aw_iter a + 1, aw_M := Some A, aw_work := Some w,
                          aw_ipiv := Some q\<rparr>)"
    by (rule aa_apply_state [OF ok bo lx lf])
  have a1: "a1 = the (update_accel_params B x f a)" using u by simp
  have a': "a' = a1\<lparr>aw_iter := aw_iter a + 1, aw_M := Some A, aw_work := Some w,
                          aw_ipiv := Some q\<rparr>"
    using e e1 by simp
  have tel: "vsub (vsub x xp) (vsub (vsub x f) gp) = vsub f fp"
    unfolding gp by (rule vsub_telescope [OF lx lf len(1,2)])
  have "vsub (put_col S (nat (aw_l a)) (nat (aw_iter a mod aw_k a)) (vsub x xp))
          (put_col Y (nat (aw_l a)) (nat (aw_iter a mod aw_k a)) (vsub (vsub x f) gp))
      = put_col D (nat (aw_l a)) (nat (aw_iter a mod aw_k a)) (vsub f fp)"
    unfolding D using len lx lf by (subst vsub_put_col) (simp_all add: tel)
  then show ?thesis
    unfolding a' a1 eq by (simp add: diff_inv_def)
qed

lemma aa_apply_zero_from:
  fixes B :: "('a::{zero,one,uminus,ord}) blas"
  assumes ok: "work_ok a" and bo: "blas_ok B"
    and lx: "length x = nat (aw_l a)" and lf: "length f = nat (aw_l a)"
    and z: "zero_from a"
    and e: "aa_apply B mx f x a = Some (st, f', a')"
  shows "zero_from a'"
proof -
  have k: "0 < aw_k a" and i0: "0 \<le> aw_iter a" using ok by (simp_all add: work_ok_def)
  note h = aa_apply_history [OF ok bo lx lf e]
  show ?thesis
    unfolding zero_from_def
  proof (intro allI impI)
    fix j
    assume j: "nat (aw_iter a') \<le> j \<and> j < nat (aw_k a')"
    then have "nat (aw_iter a + 1) \<le> j" and jk: "j < nat (aw_k a)"
      by (simp_all add: h(2,3))
    then have j1: "nat (aw_iter a) < j" using i0 by linarith
    from j1 jk have "aw_iter a < aw_k a" by linarith
    then have "aw_iter a mod aw_k a = aw_iter a" using i0 by simp
    then have ne: "j \<noteq> nat (aw_iter a mod aw_k a)" using j1 by simp
    have "hist_col a' j = hist_col a j" by (rule h(8) [OF jk ne])
    also have "\<dots> = Some (replicate (nat (aw_l a)) 0, replicate (nat (aw_l a)) 0,
                             replicate (nat (aw_l a)) 0)"
      using z j1 jk by (simp add: zero_from_def less_imp_le)
    finally show "hist_col a' j = Some (replicate (nat (aw_l a')) 0, replicate (nat (aw_l a')) 0,
                             replicate (nat (aw_l a')) 0)"
      by (simp add: h(4))
  qed
qed

lemma run_diff_inv:
  fixes B :: "('a::{ring_1,ord}) blas"
  assumes "work_ok a" and "blas_ok B" and "axpy B = ref_axpy" and "calls_ok (aw_l a) cs"
    and "diff_inv a" and "zero_from a"
  shows "\<exists>a'. run B mx cs a = Some a' \<and> diff_inv a' \<and> zero_from a' \<and>
           aw_iter a' = aw_iter a + int (length cs) \<and> aw_k a' = aw_k a \<and> aw_l a' = aw_l a"
  using assms
proof (induction cs arbitrary: a)
  case Nil
  then show ?case by simp
next
  case (Cons c cs)
  from Cons.prems have lx: "length (fst c) = nat (aw_l a)" and lf: "length (snd c) = nat (aw_l a)"
    and rest: "calls_ok (aw_l a) cs"
    by simp_all
  obtain st f' a1 where e: "aa_apply B mx (snd c) (fst c) a = Some (st, f', a1)"
    by (rule aa_apply_total [OF Cons.prems(1,2) lx lf])
  note h = aa_apply_history [OF Cons.prems(1,2) lx lf e]
  have d1: "diff_inv a1" by (rule aa_apply_diff_inv [OF Cons.prems(1,2,3) lx lf Cons.prems(5) e])
  have z1: "zero_from a1" by (rule aa_apply_zero_from [OF Cons.prems(1,2) lx lf Cons.prems(6) e])
  from Cons.IH [OF h(1) Cons.prems(2,3) _ d1 z1] rest h(4)
  obtain a' where "run B mx cs a1 = Some a'" "diff_inv a'" "zero_from a'"
    "aw_iter a' = aw_iter a1 + int (length cs)" "aw_k a' = aw_k a1" "aw_l a' = aw_l a1"
    by auto
  with h(2-4) e show ?case by simp
qed

lemma round_even_of_int [simp]: "round_even (of_int m) = m"
  by (simp add: round_even_def)

lemma fl_zero [simp]: "fl p 0 = 0"
  by (simp add: fl_def)

lemma fl_eqI:
  assumes q: "q \<noteq> 0"
    and lo: "2 powr (of_int e) \<le> \<bar>q\<bar>" and hi: "\<bar>q\<bar> < 2 powr (of_int (e + 1))"
    and r: "round_even (q / 2 powr (of_int (e - int p + 1))) = m"
  shows "fl p q = of_int m * 2 powr (of_int (e - int p + 1))"
proof -
  have "\<lfloor>log 2 \<bar>q\<bar>\<rfloor> = e"
    using q lo hi by (subst floor_log_eq_powr_iff) simp_all
  then show ?thesis using q r by (simp add: fl_def Let_def)
qed

lemma round_even_tie:
  assumes "r = of_int n + 1 / 2"
  shows "round_even r = (if even n then n else n + 1)"
proof -
  have "\<lfloor>r\<rfloor> = n" unfolding assms by (subst floor_eq_iff) simp
  then show ?thesis by (simp add: round_even_def Let_def assms)
qed

lemma round_even_up:
  assumes "r = of_int n + d" and "1 / 2 < d" and "d < 1"
  shows "round_even r = n + 1"
proof -
  have "\<lfloor>r\<rfloor> = n" unfolding assms(1) using assms(2,3) by (subst floor_eq_iff) simp
  then show ?thesis using assms by (simp add: round_even_def Let_def)
qed

lemma fl_half: "fl 53 (1 / 2) = 1 / 2" "fl 24 (1 / 2) = 1 / 2"
proof -
  have "round_even ((1 / 2) / 2 powr (of_int (- 1 - int 53 + 1))) = 2 ^ 52"
    using round_even_of_int [of "2 ^ 52"] by (simp add: powr_minus)
  from fl_eqI [of "1 / 2" "- 1" 53, OF _ _ _ this] show "fl 53 (1 / 2) = 1 / 2"
    by (simp add: powr_minus)
  have "round_even ((1 / 2) / 2 powr (of_int (- 1 - int 24 + 1))) = 2 ^ 23"
    using round_even_of_int [of "2 ^ 23"] by (simp add: powr_minus)
  from fl_eqI [of "1 / 2" "- 1" 24, OF _ _ _ this] show "fl 24 (1 / 2) = 1 / 2"
    by (simp add: powr_minus)
qed

lemma fl_neg_half: "fl 53 (- (1 / 2)) = - (1 / 2)" "fl 24 (- (1 / 2)) = - (1 / 2)"
proof -
  have "round_even ((- (1 / 2)) / 2 powr (of_int (- 1 - int 53 + 1))) = - (2 ^ 52)"
    using round_even_of_int [of "- (2 ^ 52)"] by (simp add: powr_minus)
  from fl_eqI [of "- (1 / 2)" "- 1" 53, OF _ _ _ this] show "fl 53 (- (1 / 2)) = - (1 / 2)"
    by (simp add: powr_minus)
  have "round_even ((- (1 / 2)) / 2 powr (of_int (- 1 - int 24 + 1))) = - (2 ^ 23)"
    using round_even_of_int [of "- (2 ^ 23)"] by (simp add: powr_minus)
  from fl_eqI [of "- (1 / 2)" "- 1" 24, OF _ _ _ this] show "fl 24 (- (1 / 2)) = - (1 / 2)"
    by (simp add: powr_minus)
qed

lemma fl_big: "fl 53 (2 ^ 53) = 2 ^ 53" "fl 24 (2 ^ 53) = 2 ^ 53"
proof -
  have "round_even ((2 ^ 53) / 2 powr (of_int (53 - int 53 + 1))) = 2 ^ 52"
    using round_even_of_int [of "2 ^ 52"] by simp
  from fl_eqI [of "2 ^ 53" 53 53, OF _ _ _ this] show "fl 53 (2 ^ 53) = 2 ^ 53"
    by simp
  have "round_even ((2 ^ 53) / 2 powr (of_int (53 - int 24 + 1))) = 2 ^ 23"
    using round_even_of_int [of "2 ^ 23"] by simp
  from fl_eqI [of "2 ^ 53" 53 24, OF _ _ _ this] show "fl 24 (2 ^ 53) = 2 ^ 53"
    by simp
qed

lemma fl_tie: "fl 53 (2 ^ 53 - 1 / 2) = 2 ^ 53" "fl 24 (2 ^ 53 - 1 / 2) = 2 ^ 53"
proof -
  have "round_even ((2 ^ 53 - 1 / 2) / 2 powr (of_int (52 - int 53 + 1))) = 2 ^ 53"
    using round_even_tie [of "2 ^ 53 - 1 / 2" "2 ^ 53 - 1"] by simp
  from fl_eqI [of "2 ^ 53 - 1 / 2" 52 53, OF _ _ _ this] show "fl 53 (2 ^ 53 - 1 / 2) = 2 ^ 53"
    by simp
  have "round_even ((2 ^ 53 - 1 / 2) / 2 powr (of_int (52 - int 24 + 1))) = 2 ^ 24"
    using round_even_up [of "(2 ^ 53 - 1 / 2) / 2 ^ 29" "2 ^ 24 - 1" "1 - 1 / 2 ^ 30"] by simp
  from fl_eqI [of "2 ^ 53 - 1 / 2" 52 24, OF _ _ _ this] show "fl 24 (2 ^ 53 - 1 / 2) = 2 ^ 53"
    by simp
qed

lemma ex_f0_init: "aa_init (\<lambda>i. True) 1 1 1 = Some ex_f0"
  by code_simp

lemma work_ok_ex_f0: "work_ok ex_f0"
  by (simp add: work_ok_def ex_f0_def)

lemma length_fl_axpy [simp]: "length (fl_axpy p n al u v) = length v"
  by (simp add: fl_axpy_def)

lemma blas_ok_fl_blas: "blas_ok (fl_blas p)"
  unfolding blas_ok_def by (simp add: fl_blas_def ref_blas_def ref_gesv_lengths)

lemma fl_blas_fields: "axpy (fl_blas p) = fl_axpy p" "gemm (fl_blas p) = ref_gemm"
  by (simp_all add: fl_blas_def ref_blas_def)

lemma fl_axpy_residual:
  "fl_axpy 53 1 (- 1) [1 / 2] [9007199254740992] = [9007199254740992]"
  "fl_axpy 24 1 (- 1) [1 / 2] [9007199254740992] = [9007199254740992]"
proof -
  have e: "- (1 / 2) + 9007199254740992 = (2 ^ 53 - 1 / 2 :: real)" by simp
  have "fl 53 (fl 53 (- (1 / 2)) + 9007199254740992) = 9007199254740992"
    unfolding fl_neg_half e fl_tie by simp
  then show "fl_axpy 53 1 (- 1) [1 / 2] [9007199254740992] = [9007199254740992]"
    by (simp add: fl_axpy_def)
  have "fl 24 (fl 24 (- (1 / 2)) + 9007199254740992) = 9007199254740992"
    unfolding fl_neg_half e fl_tie by simp
  then show "fl_axpy 24 1 (- 1) [1 / 2] [9007199254740992] = [9007199254740992]"
    by (simp add: fl_axpy_def)
qed

lemma fl_axpy_exact:
  "fl_axpy 53 1 (- 1) [0] [9007199254740992] = [9007199254740992]"
  "fl_axpy 24 1 (- 1) [0] [9007199254740992] = [9007199254740992]"
  "fl_axpy 53 1 (- 1) [0] [1 / 2] = [1 / 2]"
  "fl_axpy 24 1 (- 1) [0] [1 / 2] = [1 / 2]"
proof -
  have e: "(9007199254740992 :: real) = 2 ^ 53" by simp
  have "fl 53 9007199254740992 = 9007199254740992" "fl 24 9007199254740992 = 9007199254740992"
    unfolding e fl_big by simp_all
  then show "fl_axpy 53 1 (- 1) [0] [9007199254740992] = [9007199254740992]"
    "fl_axpy 24 1 (- 1) [0] [9007199254740992] = [9007199254740992]"
    by (simp_all add: fl_axpy_def)
  show "fl_axpy 53 1 (- 1) [0] [1 / 2] = [1 / 2]" "fl_axpy 24 1 (- 1) [0] [1 / 2] = [1 / 2]"
    by (simp_all add: fl_axpy_def fl_half)
qed

lemma ex_gram_f1:
  "ref_gemm ''Trans'' ''No'' 1 1 1 1 [9007199254740992 :: real] 1 [9007199254740992] 1 0 [0] 1
     = [81129638414606681695789005144064]"
  by code_simp

lemma ex_rounded_call:
  "aa_apply (fl_blas 53) 10000 [1 / 2] [9007199254740992] ex_f0 = Some (0, [1 / 2], ex_f1)"
  "aa_apply (fl_blas 24) 10000 [1 / 2] [9007199254740992] ex_f0 = Some (0, [1 / 2], ex_f1)"
proof -
  have p: "aw_x ex_f0 = Some [0]" "aw_f ex_f0 = Some [0]" "aw_g_prev ex_f0 = Some [0]"
    "aw_Y ex_f0 = Some [0]" "aw_S ex_f0 = Some [0]" "aw_D ex_f0 = Some [0]"
    "aw_M ex_f0 = Some [0]"
    and h: "length [9007199254740992 :: real] = nat (aw_l ex_f0)"
      "length [1 / 2 :: real] = nat (aw_l ex_f0)"
    and c: "aw_l ex_f0 = 1" "aw_k ex_f0 = 1" "aw_iter ex_f0 = 0" "aw_type1 ex_f0 = 1"
    by (simp_all add: ex_f0_def)
  have pc: "\<And>v :: real. put_col [0] (Suc 0) 0 [v] = [v]" by (simp add: put_col_def)
  have u: "update_accel_params (fl_blas 53) [9007199254740992] [1 / 2] ex_f0
      = Some (ex_f1\<lparr>aw_iter := 0\<rparr>)"
    unfolding update_accel_params_eq [OF work_ok_ex_f0 blas_ok_fl_blas h p] c fl_blas_fields
      fl_axpy_residual fl_axpy_exact
    by (simp add: pc ex_gram_f1) (simp add: ex_f0_def ex_f1_def)
  have v: "update_accel_params (fl_blas 24) [9007199254740992] [1 / 2] ex_f0
      = Some (ex_f1\<lparr>aw_iter := 0\<rparr>)"
    unfolding update_accel_params_eq [OF work_ok_ex_f0 blas_ok_fl_blas h p] c fl_blas_fields
      fl_axpy_residual fl_axpy_exact
    by (simp add: pc ex_gram_f1) (simp add: ex_f0_def ex_f1_def)
  show "aa_apply (fl_blas 53) 10000 [1 / 2] [9007199254740992] ex_f0 = Some (0, [1 / 2], ex_f1)"
    by (simp add: aa_apply_def u c) (simp add: ex_f1_def)
  show "aa_apply (fl_blas 24) 10000 [1 / 2] [9007199254740992] ex_f0 = Some (0, [1 / 2], ex_f1)"
    by (simp add: aa_apply_def v c) (simp add: ex_f1_def)
qed

lemma ex_update1:
  "update_accel_params ref_blas [2, 4] [1, 2] ex_a0 = Some (ex_a1\<lparr>aw_iter := 0\<rparr>)"
  by code_simp

lemma ex_rounded_update:
  "update_accel_params (fl_blas 53) [9007199254740992] [1 / 2] ex_f0
     = Some (ex_f1\<lparr>aw_iter := 0\<rparr>)"
proof -
  have p: "aw_x ex_f0 = Some [0]" "aw_f ex_f0 = Some [0]" "aw_g_prev ex_f0 = Some [0]"
    "aw_Y ex_f0 = Some [0]" "aw_S ex_f0 = Some [0]" "aw_D ex_f0 = Some [0]"
    "aw_M ex_f0 = Some [0]"
    and h: "length [9007199254740992 :: real] = nat (aw_l ex_f0)"
      "length [1 / 2 :: real] = nat (aw_l ex_f0)"
    and c: "aw_l ex_f0 = 1" "aw_k ex_f0 = 1" "aw_iter ex_f0 = 0" "aw_type1 ex_f0 = 1"
    by (simp_all add: ex_f0_def)
  have pc: "\<And>v :: real. put_col [0] (Suc 0) 0 [v] = [v]" by (simp add: put_col_def)
  show ?thesis
    unfolding update_accel_params_eq [OF work_ok_ex_f0 blas_ok_fl_blas h p] c fl_blas_fields
      fl_axpy_residual fl_axpy_exact
    by (simp add: pc ex_gram_f1) (simp add: ex_f0_def ex_f1_def)
qed

section \<open>The claims\<close>

subsection \<open>Disabled instances\<close>

text \<open>
  Claim C5. An instance constructed with \<open>k \<le> 0\<close> is disabled: every call of
  \<^verbatim>\<open>aa_apply\<close> returns status 0, hands back \<open>f\<close> as it was given and leaves the
  work space as it was, so the counter stays 0 however many calls the host makes.
\<close>

theorem disabled_step_is_noop:
  assumes "aa_init al l k t = Some a" and "k \<le> 0"
  shows "aa_apply B mx f x a = Some (0, f, a) \<and> aw_iter a = 0 \<and> run B mx cs a = Some a"
  using aa_init_disabled [OF assms] assms(2) by (simp add: aa_apply_disabled run_disabled)

theorem disabled_step_is_noop_witness:
  "aa_init (\<lambda>i. True) 2 0 1 = Some ex_off \<and> (0::int) \<le> 0 \<and>
   aa_apply ref_blas 10000 [3, 4] [1, 2] ex_off = Some (0, [3, 4], ex_off) \<and>
   aw_iter ex_off = 0 \<and>
   run ref_blas 10000 [([1, 2], [3, 4]), ([5, 6], [7, 8])] ex_off = Some ex_off"
  using disabled_step_is_noop [OF ex_off_init, of ref_blas 10000 "[3, 4]" "[1, 2]"
      "[([1, 2], [3, 4]), ([5, 6], [7, 8])]"]
  by (simp add: ex_off_init del: run.simps)

subsection \<open>The first call\<close>

text \<open>
  Claim C4. On an enabled instance whose counter is 0, as \<^verbatim>\<open>aa_init\<close> leaves it
  (lemma \<open>aa_init_work_ok\<close>), the call performs the history update and nothing else.
  The update takes \<open>g = x - f\<close>, \<open>s = x - x_prev\<close>, \<open>d = f - f_prev\<close> and
  \<open>y = g - g_prev\<close> by the backend's \<^verbatim>\<open>axpy\<close> with coefficient \<open>-1\<close>, stores
  them, writes \<open>y\<close>, \<open>s\<close>, \<open>d\<close> into column 0 of \<open>Y\<close>, \<open>S\<close>, \<open>D\<close>, sets
  \<open>M\<close> by \<^verbatim>\<open>gemm\<close>, and keeps \<open>x\<close>, \<open>f\<close> and \<open>g\<close> as the snapshots; no other
  field changes but the counter, which is 1 afterwards. The call returns status 0 and
  \<open>f\<close> unchanged. In the worked run the work space after the call is \<open>ex_a1\<close>.
\<close>

theorem first_step_is_warmup:
  fixes B :: "('a::{zero,one,uminus,ord}) blas"
  assumes "work_ok a" and "aw_iter a = 0" and "blas_ok B"
    and "length x = nat (aw_l a)" and "length f = nat (aw_l a)"
  shows "\<exists>xp fp gp Y S D M g s d y Y' S' D' a1 a'.
           aw_x a = Some xp \<and> aw_f a = Some fp \<and> aw_g_prev a = Some gp \<and>
           aw_Y a = Some Y \<and> aw_S a = Some S \<and> aw_D a = Some D \<and> aw_M a = Some M \<and>
           g = axpy B (aw_l a) (- 1) f x \<and> s = axpy B (aw_l a) (- 1) xp x \<and>
           d = axpy B (aw_l a) (- 1) fp f \<and> y = axpy B (aw_l a) (- 1) gp g \<and>
           Y' = put_col Y (nat (aw_l a)) 0 y \<and> S' = put_col S (nat (aw_l a)) 0 s \<and>
           D' = put_col D (nat (aw_l a)) 0 d \<and>
           a1 = a\<lparr>aw_g := Some g, aw_s := Some s, aw_d := Some d, aw_y := Some y,
                  aw_Y := Some Y', aw_S := Some S', aw_D := Some D',
                  aw_f := Some f, aw_x := Some x,
                  aw_M := Some (gemm B ''Trans'' ''No'' (aw_k a) (aw_k a) (aw_l a) 1
                            (if aw_type1 a \<noteq> 0 then S' else Y') (aw_l a) Y' (aw_l a)
                            0 M (aw_k a)),
                  aw_g_prev := Some g\<rparr> \<and>
           update_accel_params B x f a = Some a1 \<and> a' = a1\<lparr>aw_iter := 1\<rparr> \<and>
           aa_apply B mx f x a = Some (0, f, a') \<and>
           aw_x a' = Some x \<and> aw_f a' = Some f \<and> aw_iter a' = 1"
proof -
  obtain xp fp gp Y S D M where p: "aw_x a = Some xp" "aw_f a = Some fp"
    "aw_g_prev a = Some gp" "aw_Y a = Some Y" "aw_S a = Some S" "aw_D a = Some D"
    "aw_M a = Some M"
    using assms(1) unfolding work_ok_def by (auto dest!: has_lenD)
  define g where "g = axpy B (aw_l a) (- 1) f x"
  define s where "s = axpy B (aw_l a) (- 1) xp x"
  define d where "d = axpy B (aw_l a) (- 1) fp f"
  define y where "y = axpy B (aw_l a) (- 1) gp g"
  define Y' where "Y' = put_col Y (nat (aw_l a)) 0 y"
  define S' where "S' = put_col S (nat (aw_l a)) 0 s"
  define D' where "D' = put_col D (nat (aw_l a)) 0 d"
  define a1 where "a1 = a\<lparr>aw_g := Some g, aw_s := Some s, aw_d := Some d, aw_y := Some y,
                  aw_Y := Some Y', aw_S := Some S', aw_D := Some D',
                  aw_f := Some f, aw_x := Some x,
                  aw_M := Some (gemm B ''Trans'' ''No'' (aw_k a) (aw_k a) (aw_l a) 1
                            (if aw_type1 a \<noteq> 0 then S' else Y') (aw_l a) Y' (aw_l a)
                            0 M (aw_k a)),
                  aw_g_prev := Some g\<rparr>"
  have i: "nat (aw_iter a mod aw_k a) = 0" using assms(2) by simp
  have u: "update_accel_params B x f a = Some a1"
    unfolding a1_def Y'_def S'_def D'_def y_def d_def s_def g_def
    using update_accel_params_eq [OF assms(1,3,4,5) p] unfolding i .
  obtain a1' where u': "update_accel_params B x f a = Some a1'"
    and e: "aa_apply B mx f x a = Some (0, f, a1'\<lparr>aw_iter := 1\<rparr>)"
    by (rule aa_apply_warmup [OF assms(1,3,4,5,2)])
  have "a1' = a1" using u u' by simp
  with e have e1: "aa_apply B mx f x a = Some (0, f, a1\<lparr>aw_iter := 1\<rparr>)" by simp
  have sn: "aw_x (a1\<lparr>aw_iter := 1\<rparr>) = Some x" "aw_f (a1\<lparr>aw_iter := 1\<rparr>) = Some f"
    "aw_iter (a1\<lparr>aw_iter := 1\<rparr>) = 1"
    by (simp_all add: a1_def)
  show ?thesis
    using p g_def s_def d_def y_def Y'_def S'_def D'_def a1_def u e1 sn by blast
qed

theorem first_step_is_warmup_witness:
  "aa_init (\<lambda>i. True) 2 2 1 = Some ex_a0 \<and> work_ok ex_a0 \<and> aw_iter ex_a0 = 0 \<and>
   blas_ok ref_blas \<and> length [2, 4 :: real] = nat (aw_l ex_a0) \<and>
   length [1, 2 :: real] = nat (aw_l ex_a0) \<and>
   update_accel_params ref_blas [2, 4] [1, 2] ex_a0 = Some (ex_a1\<lparr>aw_iter := 0\<rparr>) \<and>
   aa_apply ref_blas 10000 [1, 2] [2, 4] ex_a0 = Some (0, [1, 2], ex_a1) \<and>
   aw_x ex_a1 = Some [2, 4] \<and> aw_f ex_a1 = Some [1, 2] \<and> aw_iter ex_a1 = 1 \<and>
   aw_g ex_a1 = Some [1, 2] \<and> aw_s ex_a1 = Some [2, 4] \<and> aw_d ex_a1 = Some [1, 2] \<and>
   aw_y ex_a1 = Some [1, 2] \<and> aw_g_prev ex_a1 = Some [1, 2] \<and>
   aw_Y ex_a1 = Some [1, 2, 0, 0] \<and> aw_S ex_a1 = Some [2, 4, 0, 0] \<and>
   aw_D ex_a1 = Some [1, 2, 0, 0] \<and> aw_M ex_a1 = Some [10, 0, 0, 0]"
proof -
  have h: "aw_iter ex_a0 = 0" "length [2, 4 :: real] = nat (aw_l ex_a0)"
    "length [1, 2 :: real] = nat (aw_l ex_a0)"
    by (simp_all add: ex_a0_def)
  from first_step_is_warmup [OF work_ok_ex_a0 h(1) blas_ok_ref_blas h(2,3), of 10000]
  obtain a1 a' where u: "update_accel_params ref_blas [2, 4] [1, 2] ex_a0 = Some a1"
    and a': "a' = a1\<lparr>aw_iter := 1\<rparr>"
    and e: "aa_apply ref_blas 10000 [1, 2] [2, 4] ex_a0 = Some (0, [1, 2], a')"
    and g: "aw_g a1 = Some (axpy ref_blas (aw_l ex_a0) (- 1) [1, 2] [2, 4])"
    by auto
  have "a1 = ex_a1\<lparr>aw_iter := 0\<rparr>" using u by (simp add: ex_update1)
  then have "a' = ex_a1" using a' by (simp add: ex_a1_def)
  with e u show ?thesis
    using ex_a0_init work_ok_ex_a0 blas_ok_ref_blas h
    by (simp add: ex_update1) (simp add: ex_a1_def)
qed

subsection \<open>The guarded solve\<close>

text \<open>
  Claim C1. Lemma \<open>solve_guard_decides_status\<close> is what the code does on every call
  after the first: the status is negative exactly when \<open>info < 0\<close> or the norm of the
  work vector reaches \<^verbatim>\<open>MAX_AA_NRM\<close>; then \<open>f\<close> is handed back untouched, and
  otherwise \<open>f\<close> is the result of \<^verbatim>\<open>gemv\<close> with \<open>alpha = -1\<close>, \<open>beta = 1\<close> on \<open>D\<close>
  and the weights, and the status is \<open>info\<close>. The routine the file names, LAPACK's
  \<^verbatim>\<open>gesv\<close>, reports an exactly singular factor by a positive \<open>info\<close>, and a negative
  \<open>info\<close> only for an illegal argument. So a singular system is not rejected: for the
  identity map the Gram matrix is zero, \<^verbatim>\<open>gesv\<close> returns \<open>info = 1\<close> without solving,
  and the second call returns status 1, not a negative status.
\<close>

theorem singular_solve_is_accepted:
  "aa_init (\<lambda>i. True) 2 2 1 = Some ex_a0 \<and>
   aa_apply ref_blas 10000 [1, 2] [1, 2] ex_a0 = Some (0, [1, 2], ex_i1) \<and>
   update_accel_params ref_blas [1, 2] [1, 2] ex_i1
     = Some (ex_i2\<lparr>aw_iter := 1, aw_ipiv := Some [0, 0]\<rparr>) \<and>
   solve_system ref_blas (ex_i2\<lparr>aw_iter := 1, aw_ipiv := Some [0, 0]\<rparr>)
       (min (aw_iter ex_i1) (aw_k ex_i1))
     = Some ([0, 0, 0, 0], [1, 0], [0, 0], 1) \<and>
   aa_apply ref_blas 10000 [1, 2] [1, 2] ex_i1 = Some (1, [1, 2], ex_i2)"
proof -
  let ?u = "ex_i2\<lparr>aw_iter := 1, aw_ipiv := Some [0, 0]\<rparr>"
  have "aa_apply ref_blas 10000 [1, 2] [1, 2] ex_i1 =
       Some (if (1::int) < 0 \<or> 10000 \<le> nrm2 ref_blas (aw_k ex_i1) [0, 0]
             then (- 1, [1, 2], ?u\<lparr>aw_iter := aw_iter ex_i1 + 1,
                    aw_M := Some [0, 0, 0, 0],
                    aw_work := Some [0, 0], aw_ipiv := Some [1, 0]\<rparr>)
             else (1,
                   gemv ref_blas ''NoTrans'' (aw_l ex_i1) (min (aw_iter ex_i1) (aw_k ex_i1)) (- 1)
                     [1, 2, 0, 0] (aw_l ex_i1) [0, 0] 1 [1, 2],
                   ?u\<lparr>aw_iter := aw_iter ex_i1 + 1,
                    aw_M := Some [0, 0, 0, 0],
                    aw_work := Some [0, 0], aw_ipiv := Some [1, 0]\<rparr>))"
    by (rule aa_apply_eval [OF work_ok_ex_i1 blas_ok_ref_blas _ _ _ ex_identity_update])
      (simp_all add: ex_i1_fields ex_identity_system, simp add: ex_i2_def)
  then have "aa_apply ref_blas 10000 [1, 2] [1, 2] ex_i1 = Some (1, [1, 2], ex_i2)"
    by (simp add: ex_i1_fields ex_nrm2_zero ex_identity_correction ex_i2_def)
  then show ?thesis
    by (simp add: ex_a0_init ex_identity_call0 ex_identity_update ex_identity_system ex_i1_fields)
qed

text \<open>
  Claim C3. After the first call the system is solved at order
  \<open>len = min(iter, k)\<close>: \<^verbatim>\<open>gesv\<close> is called with \<open>n = len\<close>, the Gram matrix with
  leading dimension \<open>k\<close>, and a right-hand side of \<open>len\<close> entries computed from the
  first \<open>len\<close> columns of \<open>S\<close> or \<open>Y\<close>. The work space afterwards holds what that call
  returned. Only the norm is taken over all \<open>k\<close> entries of the work vector: the
  status is \<open>-1\<close> when \<open>info < 0\<close> or that norm reaches the threshold, and \<open>info\<close>
  otherwise.
\<close>

theorem solve_order_is_valid_length:
  fixes B :: "('a::{zero,one,uminus,ord}) blas"
  assumes ok: "work_ok a" and bo: "blas_ok B"
    and lx: "length x = nat (aw_l a)" and lf: "length f = nat (aw_l a)"
    and it: "1 \<le> aw_iter a"
  shows "\<exists>a1 SY g wk M ip st f' a'.
     update_accel_params B x f a = Some a1 \<and>
     (if aw_type1 a \<noteq> 0 then aw_S a1 else aw_Y a1) = Some SY \<and>
     aw_g a1 = Some g \<and> aw_work a1 = Some wk \<and> aw_M a1 = Some M \<and> aw_ipiv a1 = Some ip \<and>
     aa_apply B mx f x a = Some (st, f', a') \<and>
     (let len = min (aw_iter a) (aw_k a);
          r = gesv B len 1 M (aw_k a) ip
                (gemv B ''Trans'' (aw_l a) len 1 SY (aw_l a) g 0 wk) len;
          w = fst (snd (snd r)); info = snd (snd (snd r))
      in aw_M a' = Some (fst r) \<and> aw_ipiv a' = Some (fst (snd r)) \<and>
         aw_work a' = Some w \<and>
         st = (if info < 0 \<or> mx \<le> nrm2 B (aw_k a) w then - 1 else info))"
proof -
  have it0: "aw_iter a \<noteq> 0" using it by simp
  obtain a1 where u: "update_accel_params B x f a = Some a1" and ok1: "work_ok a1"
    and fr: "aw_iter a1 = aw_iter a" "aw_k a1 = aw_k a" "aw_l a1 = aw_l a"
      "aw_type1 a1 = aw_type1 a"
    by (rule update_accel_params_work_ok [OF ok bo lx lf])
  obtain Y S g wk M ip where q: "aw_Y a1 = Some Y" "aw_S a1 = Some S"
    "aw_g a1 = Some g" "aw_work a1 = Some wk" "aw_M a1 = Some M" "aw_ipiv a1 = Some ip"
    using ok1 unfolding work_ok_def by (auto dest!: has_lenD)
  define SY where "SY = (if aw_type1 a \<noteq> 0 then S else Y)"
  have sy: "(if aw_type1 a \<noteq> 0 then aw_S a1 else aw_Y a1) = Some SY"
    by (simp add: SY_def q)
  define len where "len = min (aw_iter a) (aw_k a)"
  define r where "r = gesv B len 1 M (aw_k a) ip
                (gemv B ''Trans'' (aw_l a) len 1 SY (aw_l a) g 0 wk) len"
  have sys: "solve_system B a1 (min (aw_iter a) (aw_k a))
      = Some (fst r, fst (snd r), fst (snd (snd r)), snd (snd (snd r)))"
    using sy by (simp add: solve_system_def q(3-) fr r_def len_def)
  obtain D where d: "aw_D a1 = Some D"
    using ok1 unfolding work_ok_def by (auto dest!: has_lenD)
  note ev = aa_apply_eval [OF ok bo lx lf it0 u sys d, of mx]
  obtain st f' a' where e: "aa_apply B mx f x a = Some (st, f', a')"
    and p: "aw_M a' = Some (fst r)" "aw_ipiv a' = Some (fst (snd r))"
      "aw_work a' = Some (fst (snd (snd r)))"
      "st = (if snd (snd (snd r)) < 0 \<or> mx \<le> nrm2 B (aw_k a) (fst (snd (snd r)))
             then - 1 else snd (snd (snd r)))"
    using ev by (cases "snd (snd (snd r)) < 0 \<or> mx \<le> nrm2 B (aw_k a) (fst (snd (snd r)))")
      simp_all
  show ?thesis
    using u sy q(3-) e p unfolding Let_def r_def len_def by blast
qed

theorem solve_order_is_valid_length_witness:
  "work_ok ex_a1 \<and> blas_ok ref_blas \<and> length [1, 2 :: real] = nat (aw_l ex_a1) \<and>
   length [1 / 2, 1 :: real] = nat (aw_l ex_a1) \<and> 1 \<le> aw_iter ex_a1 \<and>
   update_accel_params ref_blas [1, 2] [1 / 2, 1] ex_a1 = Some ex_u2 \<and>
   aw_S ex_u2 = Some [2, 4, - 1, - 2] \<and> aw_g ex_u2 = Some [1 / 2, 1] \<and>
   aw_work ex_u2 = Some [0, 0] \<and> aw_M ex_u2 = Some [10, - 5, - 5, 5 / 2] \<and>
   aw_ipiv ex_u2 = Some [0, 0] \<and>
   aa_apply ref_blas 10000 [1 / 2, 1] [1, 2] ex_a1 = Some (0, [0, 0], ex_a2) \<and>
   min (aw_iter ex_a1) (aw_k ex_a1) = 1 \<and>
   gemv ref_blas ''Trans'' 2 1 1 [2, 4, - 1, - 2] 2 [1 / 2, 1] 0 [0, 0] = [5, 0] \<and>
   gesv ref_blas 1 1 [10, - 5, - 5, 5 / 2] 2 [0, 0] [5, 0] 1
     = ([10, - 5, - 5, 5 / 2], [1, 0], [1 / 2, 0], 0) \<and>
   aw_M ex_a2 = Some [10, - 5, - 5, 5 / 2] \<and> aw_ipiv ex_a2 = Some [1, 0] \<and>
   aw_work ex_a2 = Some [1 / 2, 0] \<and> nrm2 ref_blas 2 [1 / 2, 0] = 1 / 2 \<and>
   (0 :: int) = (if (0 :: int) < 0 \<or> (10000 :: real) \<le> nrm2 ref_blas 2 [1 / 2, 0]
                 then - 1 else 0)"
proof -
  have h: "length [1, 2 :: real] = nat (aw_l ex_a1)" "length [1 / 2, 1 :: real] = nat (aw_l ex_a1)"
    "1 \<le> aw_iter ex_a1"
    by (simp_all add: ex_a1_fields)
  have gv: "gemv ref_blas ''Trans'' 2 1 1 [2, 4, - 1, - 2] 2 [1 / 2, 1] 0 [0, 0] = [5, 0 :: real]"
    by code_simp
  have gs: "gesv ref_blas 1 1 [10, - 5, - 5, 5 / 2] 2 [0, 0] [5, 0] 1
     = ([10, - 5, - 5, 5 / 2], [1, 0], [1 / 2, 0 :: real], 0)"
    by code_simp
  have fu: "aw_S ex_u2 = Some [2, 4, - 1, - 2]" "aw_g ex_u2 = Some [1 / 2, 1]"
    "aw_work ex_u2 = Some [0, 0]" "aw_M ex_u2 = Some [10, - 5, - 5, 5 / 2]"
    "aw_ipiv ex_u2 = Some [0, 0]"
    and fa: "aw_type1 ex_a1 \<noteq> 0" "aw_l ex_a1 = 2" "aw_k ex_a1 = 2"
    and mn: "min (aw_iter ex_a1) (aw_k ex_a1) = 1"
    by (simp_all add: ex_u2_def ex_a1_def)
  from solve_order_is_valid_length [OF work_ok_ex_a1 blas_ok_ref_blas h, of 10000]
  obtain a1 SY g wk M ip st f' a' where
    u: "update_accel_params ref_blas [1, 2] [1 / 2, 1] ex_a1 = Some a1"
    and sy: "(if aw_type1 ex_a1 \<noteq> 0 then aw_S a1 else aw_Y a1) = Some SY"
    and q: "aw_g a1 = Some g" "aw_work a1 = Some wk" "aw_M a1 = Some M" "aw_ipiv a1 = Some ip"
    and e: "aa_apply ref_blas 10000 [1 / 2, 1] [1, 2] ex_a1 = Some (st, f', a')"
    and r: "aw_M a' = Some (fst (gesv ref_blas (min (aw_iter ex_a1) (aw_k ex_a1)) 1 M (aw_k ex_a1) ip
                (gemv ref_blas ''Trans'' (aw_l ex_a1) (min (aw_iter ex_a1) (aw_k ex_a1)) 1 SY
                   (aw_l ex_a1) g 0 wk) (min (aw_iter ex_a1) (aw_k ex_a1))))"
      "st = (if snd (snd (snd (gesv ref_blas (min (aw_iter ex_a1) (aw_k ex_a1)) 1 M (aw_k ex_a1) ip
                (gemv ref_blas ''Trans'' (aw_l ex_a1) (min (aw_iter ex_a1) (aw_k ex_a1)) 1 SY
                   (aw_l ex_a1) g 0 wk) (min (aw_iter ex_a1) (aw_k ex_a1))))) < 0 \<or>
              10000 \<le> nrm2 ref_blas (aw_k ex_a1)
                (fst (snd (snd (gesv ref_blas (min (aw_iter ex_a1) (aw_k ex_a1)) 1 M (aw_k ex_a1) ip
                (gemv ref_blas ''Trans'' (aw_l ex_a1) (min (aw_iter ex_a1) (aw_k ex_a1)) 1 SY
                   (aw_l ex_a1) g 0 wk) (min (aw_iter ex_a1) (aw_k ex_a1))))))
             then - 1
             else snd (snd (snd (gesv ref_blas (min (aw_iter ex_a1) (aw_k ex_a1)) 1 M (aw_k ex_a1) ip
                (gemv ref_blas ''Trans'' (aw_l ex_a1) (min (aw_iter ex_a1) (aw_k ex_a1)) 1 SY
                   (aw_l ex_a1) g 0 wk) (min (aw_iter ex_a1) (aw_k ex_a1))))))"
    unfolding Let_def by blast
  have a1: "a1 = ex_u2" using u unfolding ex_update2 by simp
  have v: "SY = [2, 4, - 1, - 2]" "g = [1 / 2, 1]" "wk = [0, 0]" "M = [10, - 5, - 5, 5 / 2]"
    "ip = [0, 0]"
    using sy q fa(1) unfolding a1 fu by simp_all
  have st: "st = (if (0 :: int) < 0 \<or> (10000 :: real) \<le> nrm2 ref_blas 2 [1 / 2, 0]
                 then - 1 else 0)"
    using r(2) [unfolded v mn] unfolding fa(2,3) gv gs by simp
  have "st = 0" "a' = ex_a2" using e unfolding ex_call1 by simp_all
  with st have s0: "(0 :: int) = (if (0 :: int) < 0 \<or> (10000 :: real) \<le> nrm2 ref_blas 2 [1 / 2, 0]
                 then - 1 else 0)"
    by (simp only:)
  have fa2: "aw_M ex_a2 = Some [10, - 5, - 5, 5 / 2]" "aw_ipiv ex_a2 = Some [1, 0]"
    "aw_work ex_a2 = Some [1 / 2, 0]"
    by (simp_all add: ex_a2_def)
  show ?thesis
    using work_ok_ex_a1 blas_ok_ref_blas h ex_update2 fu mn ex_call1 gv gs fa2 ex_nrm2_accept s0
    by (simp only: simp_thms)
qed

text \<open>
  The second call of the worked run has \<open>iter = 1 < k = 2\<close>. The step solves the
  leading 1 by 1 system (weight \<open>1/2\<close>, \<open>info = 0\<close>) and accepts; the same data at
  order \<open>k\<close> is a singular 2 by 2 system, for which \<^verbatim>\<open>gesv\<close> returns \<open>info = 2\<close>,
  other pivots and an unsolved right-hand side.
\<close>

theorem solve_order_counterexample:
  "aw_iter ex_a1 = 1 \<and> aw_k ex_a1 = 2 \<and>
   update_accel_params ref_blas [1, 2] [1 / 2, 1] ex_a1 = Some ex_u2 \<and>
   aa_apply ref_blas 10000 [1 / 2, 1] [1, 2] ex_a1 = Some (0, [0, 0], ex_a2) \<and>
   aw_work ex_a2 = Some [1 / 2, 0] \<and> aw_ipiv ex_a2 = Some [1, 0] \<and>
   solve_system ref_blas ex_u2 (aw_iter ex_a1)
     = Some ([10, - 5, - 5, 5 / 2], [1, 0], [1 / 2, 0], 0) \<and>
   solve_system ref_blas ex_u2 (aw_k ex_a1)
     = Some ([10, - (1 / 2), - 5, 0], [1, 2], [5, - (5 / 2)], 2) \<and>
   aw_work ex_a2 \<noteq> Some [5, - (5 / 2)] \<and> aw_ipiv ex_a2 \<noteq> Some [1, 2] \<and> (0::int) \<noteq> 2"
  by (simp add: ex_a1_fields ex_update2 ex_call1 ex_system2 ex_system2_full) (simp add: ex_a2_def)

text \<open>
  Claim C7. A rejected step is not terminal. The caller gets back the \<open>f\<close> it passed;
  the work space afterwards is the one the history update produced, with the counter
  advanced and \<open>M\<close>, \<open>work\<close>, \<open>ipiv\<close> as \<^verbatim>\<open>gesv\<close> left them, so the columns of
  \<open>Y\<close>, \<open>S\<close>, \<open>D\<close> and the snapshots are retained; it does not depend on the threshold,
  hence not on the verdict; and the next call is again a history update followed by
  \<^verbatim>\<open>solve\<close>.
\<close>

theorem rejection_keeps_history:
  fixes B :: "('a::{zero,one,uminus,ord}) blas"
  assumes ok: "work_ok a" and bo: "blas_ok B"
    and lx: "length x = nat (aw_l a)" and lf: "length f = nat (aw_l a)"
    and lx2: "length x2 = nat (aw_l a)" and lf2: "length f2 = nat (aw_l a)"
    and rej: "aa_apply B mx f x a = Some (st, f', a')" and neg: "st < 0"
  shows "f' = f \<and> work_ok a' \<and> aw_iter a' = aw_iter a + 1 \<and>
    (\<exists>a1 A p w info.
       update_accel_params B x f a = Some a1 \<and>
       solve_system B a1 (min (aw_iter a) (aw_k a)) = Some (A, p, w, info) \<and>
       a' = a1\<lparr>aw_iter := aw_iter a + 1, aw_M := Some A, aw_work := Some w,
                 aw_ipiv := Some p\<rparr> \<and>
       aw_Y a' = aw_Y a1 \<and> aw_S a' = aw_S a1 \<and> aw_D a' = aw_D a1 \<and>
       aw_x a' = Some x \<and> aw_f a' = Some f \<and> aw_g_prev a' = aw_g_prev a1) \<and>
    map_option (\<lambda>r. snd (snd r)) (aa_apply B mx' f x a) = Some a' \<and>
    (\<exists>a3. update_accel_params B x2 f2 a' = Some a3 \<and>
       aa_apply B mx f2 x2 a' =
         solve B mx f2 (a3\<lparr>aw_iter := aw_iter a + 2\<rparr>) (min (aw_iter a + 1) (aw_k a)))"
proof -
  have it0: "aw_iter a \<noteq> 0"
  proof
    assume z: "aw_iter a = 0"
    obtain a1 where "aa_apply B mx f x a = Some (0, f, a1\<lparr>aw_iter := 1\<rparr>)"
      by (rule aa_apply_warmup [OF ok bo lx lf z])
    with rej neg show False by simp
  qed
  obtain a1 where u: "update_accel_params B x f a = Some a1" and ok1: "work_ok a1"
    and fr: "aw_iter a1 = aw_iter a" "aw_k a1 = aw_k a" "aw_l a1 = aw_l a"
      "aw_type1 a1 = aw_type1 a" "aw_x a1 = Some x" "aw_f a1 = Some f"
    by (rule update_accel_params_work_ok [OF ok bo lx lf])
  obtain a1' A p w info D where
    u': "update_accel_params B x f a = Some a1'"
    and r: "solve_system B a1' (min (aw_iter a) (aw_k a)) = Some (A, p, w, info)"
    and d: "aw_D a1' = Some D"
    by (rule aa_apply_post_warmup [OF ok bo lx lf it0, of mx])
  have a1': "a1' = a1" using u u' by simp
  note r = r [unfolded a1'] and d = d [unfolded a1']
  let ?a' = "a1\<lparr>aw_iter := aw_iter a + 1, aw_M := Some A, aw_work := Some w,
                 aw_ipiv := Some p\<rparr>"
  note ev = aa_apply_eval [OF ok bo lx lf it0 u r d]
  have e: "a' = ?a'" and f': "f' = f"
    using rej neg ev [of mx] by (simp_all split: if_splits)
  have ind: "map_option (\<lambda>r. snd (snd r)) (aa_apply B mx' f x a) = Some a'"
    unfolding e ev [of mx'] by simp
  have ln: "length A = nat (aw_k a1 * aw_k a1)" "length p = nat (aw_k a1)"
    "length w = nat (aw_k a1)"
    by (rule solve_system_lengths [OF ok1 bo r])+
  have ok': "work_ok a'"
    using ok1 ln fr(1) ok unfolding e by (simp add: work_ok_def)
  have k: "0 < aw_k a" and i0: "0 \<le> aw_iter a" using ok by (simp_all add: work_ok_def)
  have c: "aw_l a' = aw_l a" "aw_k a' = aw_k a" "aw_iter a' = aw_iter a + 1"
    unfolding e using fr by simp_all
  obtain a3 where u3: "update_accel_params B x2 f2 a' = Some a3" and ok3: "work_ok a3"
    and fr3: "aw_iter a3 = aw_iter a'" "aw_k a3 = aw_k a'"
    by (rule update_accel_params_work_ok [OF ok' bo lx2 [folded c(1)] lf2 [folded c(1)]])
  have nxt: "aa_apply B mx f2 x2 a' =
         solve B mx f2 (a3\<lparr>aw_iter := aw_iter a + 2\<rparr>) (min (aw_iter a + 1) (aw_k a))"
    using k i0 by (simp add: aa_apply_def u3 fr3 c Let_def add.commute)
  have proj: "aw_Y a' = aw_Y a1" "aw_S a' = aw_S a1" "aw_D a' = aw_D a1"
    "aw_x a' = Some x" "aw_f a' = Some f" "aw_g_prev a' = aw_g_prev a1"
    unfolding e using fr by simp_all
  show ?thesis
    using f' ok' c(3) u r e proj ind u3 nxt by blast
qed

theorem rejection_keeps_history_witness:
  "work_ok ex_a1 \<and> blas_ok ref_blas \<and> length [50000, 0 :: real] = nat (aw_l ex_a1) \<and>
   length [0, 0 :: real] = nat (aw_l ex_a1) \<and> length [1, 2 :: real] = nat (aw_l ex_a1) \<and>
   length [1 / 2, 1 :: real] = nat (aw_l ex_a1) \<and>
   aa_apply ref_blas 10000 [0, 0] [50000, 0] ex_a1 = Some (- 1, [0, 0], ex_r2) \<and>
   (- 1 :: int) < 0 \<and> work_ok ex_r2 \<and> aw_iter ex_r2 = aw_iter ex_a1 + 1 \<and>
   map_option (\<lambda>r. snd (snd r)) (aa_apply ref_blas 20000 [0, 0] [50000, 0] ex_a1) = Some ex_r2 \<and>
   (\<exists>a3. update_accel_params ref_blas [1, 2] [1 / 2, 1] ex_r2 = Some a3 \<and>
       aa_apply ref_blas 10000 [1 / 2, 1] [1, 2] ex_r2 =
         solve ref_blas 10000 [1 / 2, 1] (a3\<lparr>aw_iter := aw_iter ex_a1 + 2\<rparr>)
           (min (aw_iter ex_a1 + 1) (aw_k ex_a1)))"
proof -
  have h: "length [50000, 0 :: real] = nat (aw_l ex_a1)" "length [0, 0 :: real] = nat (aw_l ex_a1)"
    "length [1, 2 :: real] = nat (aw_l ex_a1)" "length [1 / 2, 1 :: real] = nat (aw_l ex_a1)"
    by (simp_all add: ex_a1_fields)
  have n: "(- 1 :: int) < 0" by simp
  from rejection_keeps_history [OF work_ok_ex_a1 blas_ok_ref_blas h ex_call1_rejected n,
      of 20000]
  show ?thesis using work_ok_ex_a1 blas_ok_ref_blas h ex_call1_rejected by simp
qed

subsection \<open>The snapshots\<close>

text \<open>
  Claim C10. After every call on an enabled instance the stored \<open>x\<close> and \<open>f\<close> are the
  arguments of that call, also when the step was accepted and the caller's \<open>f\<close> was
  overwritten: the history and the residual snapshot are those of the history update,
  which reads only the arguments. In the worked run the second call returns
  \<open>[0, 0]\<close> and stores \<open>[1/2, 1]\<close>.
\<close>

theorem snapshots_hold_raw_arguments:
  fixes B :: "('a::{zero,one,uminus,ord}) blas"
  assumes ok: "work_ok a" and bo: "blas_ok B"
    and lx: "length x = nat (aw_l a)" and lf: "length f = nat (aw_l a)"
  shows "\<exists>st f' a' a1.
     aa_apply B mx f x a = Some (st, f', a') \<and> aw_x a' = Some x \<and> aw_f a' = Some f \<and>
     update_accel_params B x f a = Some a1 \<and>
     aw_g_prev a' = aw_g_prev a1 \<and> aw_Y a' = aw_Y a1 \<and> aw_S a' = aw_S a1 \<and>
     aw_D a' = aw_D a1"
proof -
  obtain a1 where u: "update_accel_params B x f a = Some a1"
    and sn: "aw_x a1 = Some x" "aw_f a1 = Some f"
    by (rule update_accel_params_work_ok [OF ok bo lx lf])
  obtain a1' st f' A p w where u': "update_accel_params B x f a = Some a1'"
    and e: "aa_apply B mx f x a =
       Some (st, f', a1'\<lparr>aw_iter := aw_iter a + 1, aw_M := Some A, aw_work := Some w,
                          aw_ipiv := Some p\<rparr>)"
    by (rule aa_apply_state [OF ok bo lx lf])
  have "a1' = a1" using u u' by simp
  with e u sn show ?thesis by simp
qed

theorem snapshots_hold_raw_arguments_witness:
  "work_ok ex_a1 \<and> blas_ok ref_blas \<and> length [1, 2 :: real] = nat (aw_l ex_a1) \<and>
   length [1 / 2, 1 :: real] = nat (aw_l ex_a1) \<and>
   aa_apply ref_blas 10000 [1 / 2, 1] [1, 2] ex_a1 = Some (0, [0, 0], ex_a2) \<and>
   [0, 0] \<noteq> [1 / 2, 1 :: real] \<and>
   aw_x ex_a2 = Some [1, 2] \<and> aw_f ex_a2 = Some [1 / 2, 1] \<and>
   aw_Y ex_a2 = aw_Y ex_u2 \<and> aw_S ex_a2 = aw_S ex_u2 \<and> aw_D ex_a2 = aw_D ex_u2 \<and>
   aw_g_prev ex_a2 = aw_g_prev ex_u2"
proof -
  have h: "length [1, 2 :: real] = nat (aw_l ex_a1)" "length [1 / 2, 1 :: real] = nat (aw_l ex_a1)"
    by (simp_all add: ex_a1_fields)
  from snapshots_hold_raw_arguments [OF work_ok_ex_a1 blas_ok_ref_blas h, of 10000]
  show ?thesis using work_ok_ex_a1 blas_ok_ref_blas h
    by (simp add: ex_call1 ex_update2)
qed

subsection \<open>The history update\<close>

text \<open>
  Claim C2. The history update of every call on an enabled instance takes
  \<open>g = x - f\<close>, \<open>s = x - x_prev\<close>, \<open>d = f - f_prev\<close> and \<open>y = g - g_prev\<close> by the
  backend's \<^verbatim>\<open>axpy\<close> with coefficient \<open>-1\<close> over \<open>l\<close> entries, writes \<open>y\<close>,
  \<open>s\<close>, \<open>d\<close> into column \<open>iter mod k\<close> of \<open>Y\<close>, \<open>S\<close>, \<open>D\<close>, and sets \<open>M\<close> by
  one \<^verbatim>\<open>gemm\<close> call of size \<open>k\<close> by \<open>k\<close> with inner dimension \<open>l\<close> and
  \<open>beta = 0\<close> on the transpose of the updated \<open>S\<close> (type 1) or \<open>Y\<close> and the updated
  \<open>Y\<close>, all \<open>k\<close> columns of them. This holds for every backend that keeps the
  lengths of its operands, whatever its arithmetic. When \<^verbatim>\<open>axpy\<close> is exact the
  vectors are the componentwise differences, and when \<^verbatim>\<open>gemm\<close> is exact \<open>M\<close> is the
  Gram matrix \<open>S'Y\<close> or \<open>Y'Y\<close>; with a rounding \<^verbatim>\<open>axpy\<close> they are the rounded
  differences (for \<open>x = [2^53]\<close>, \<open>f = [1/2]\<close> at 53 bits the stored \<open>g\<close> is
  \<open>2^53\<close>). The vectors and the history are still there after the call; \<open>M\<close> is
  then overwritten by the factorisation.
\<close>

theorem history_update_computes_differences:
  fixes B :: "('a::{ring_1,ord}) blas"
  assumes ok: "work_ok a" and bo: "blas_ok B"
    and lx: "length x = nat (aw_l a)" and lf: "length f = nat (aw_l a)"
    and px: "aw_x a = Some xp" and pf: "aw_f a = Some fp" and pg: "aw_g_prev a = Some gp"
    and pY: "aw_Y a = Some Y" and pS: "aw_S a = Some S" and pD: "aw_D a = Some D"
  shows "\<exists>M g s d y Y' S' D' M' a1 st f' a'.
     aw_M a = Some M \<and>
     g = axpy B (aw_l a) (- 1) f x \<and> s = axpy B (aw_l a) (- 1) xp x \<and>
     d = axpy B (aw_l a) (- 1) fp f \<and> y = axpy B (aw_l a) (- 1) gp g \<and>
     Y' = put_col Y (nat (aw_l a)) (nat (aw_iter a mod aw_k a)) y \<and>
     S' = put_col S (nat (aw_l a)) (nat (aw_iter a mod aw_k a)) s \<and>
     D' = put_col D (nat (aw_l a)) (nat (aw_iter a mod aw_k a)) d \<and>
     M' = gemm B ''Trans'' ''No'' (aw_k a) (aw_k a) (aw_l a) 1
            (if aw_type1 a \<noteq> 0 then S' else Y') (aw_l a) Y' (aw_l a) 0 M (aw_k a) \<and>
     a1 = a\<lparr>aw_g := Some g, aw_s := Some s, aw_d := Some d, aw_y := Some y,
            aw_Y := Some Y', aw_S := Some S', aw_D := Some D',
            aw_f := Some f, aw_x := Some x, aw_M := Some M', aw_g_prev := Some g\<rparr> \<and>
     update_accel_params B x f a = Some a1 \<and>
     (axpy B = ref_axpy \<longrightarrow>
        g = vsub x f \<and> s = vsub x xp \<and> d = vsub f fp \<and> y = vsub (vsub x f) gp) \<and>
     (gemm B = ref_gemm \<longrightarrow>
        M' = gram (if aw_type1 a \<noteq> 0 then S' else Y') Y' (nat (aw_l a)) (nat (aw_k a))) \<and>
     aa_apply B mx f x a = Some (st, f', a') \<and>
     aw_g a' = Some g \<and> aw_s a' = Some s \<and> aw_d a' = Some d \<and> aw_y a' = Some y \<and>
     aw_Y a' = Some Y' \<and> aw_S a' = Some S' \<and> aw_D a' = Some D'"
proof -
  have k: "0 < aw_k a" and lp: "0 < aw_l a" and i0: "0 \<le> aw_iter a"
    using ok by (simp_all add: work_ok_def)
  obtain M where pM: "aw_M a = Some M" and lM: "length M = nat (aw_k a * aw_k a)"
    using ok unfolding work_ok_def by (auto dest!: has_lenD)
  have len: "length xp = nat (aw_l a)" "length fp = nat (aw_l a)" "length gp = nat (aw_l a)"
    "length Y = nat (aw_l a * aw_k a)" "length S = nat (aw_l a * aw_k a)"
    "length D = nat (aw_l a * aw_k a)"
    using ok px pf pg pY pS pD by (simp_all add: work_ok_def)
  have la: "\<And>n al u v. length (axpy B n al u v) = length v"
    using bo by (simp add: blas_ok_def)
  define j where "j = nat (aw_iter a mod aw_k a)"
  define l where "l = nat (aw_l a)"
  define g where "g = axpy B (aw_l a) (- 1) f x"
  define s where "s = axpy B (aw_l a) (- 1) xp x"
  define d where "d = axpy B (aw_l a) (- 1) fp f"
  define y where "y = axpy B (aw_l a) (- 1) gp g"
  define Y' where "Y' = put_col Y l j y"
  define S' where "S' = put_col S l j s"
  define D' where "D' = put_col D l j d"
  define M' where "M' = gemm B ''Trans'' ''No'' (aw_k a) (aw_k a) (aw_l a) 1
            (if aw_type1 a \<noteq> 0 then S' else Y') (aw_l a) Y' (aw_l a) 0 M (aw_k a)"
  define a1 where "a1 = a\<lparr>aw_g := Some g, aw_s := Some s, aw_d := Some d, aw_y := Some y,
            aw_Y := Some Y', aw_S := Some S', aw_D := Some D',
            aw_f := Some f, aw_x := Some x, aw_M := Some M', aw_g_prev := Some g\<rparr>"
  have cb: "j * l + l \<le> nat (aw_l a * aw_k a)"
    unfolding j_def l_def by (rule col_bound [OF k lp i0])
  have lv: "length y = l" "length s = l"
    by (simp_all add: y_def s_def g_def la lx l_def)
  have lc: "length Y' = nat (aw_l a * aw_k a)" "length S' = nat (aw_l a * aw_k a)"
    unfolding Y'_def S'_def using cb lv len by (simp_all add: length_put_col)
  have u: "update_accel_params B x f a = Some a1"
    unfolding a1_def M'_def Y'_def S'_def D'_def y_def d_def s_def g_def j_def l_def
    by (rule update_accel_params_eq [OF ok bo lx lf px pf pg pY pS pD pM])
  have ex: "axpy B = ref_axpy \<longrightarrow>
        g = vsub x f \<and> s = vsub x xp \<and> d = vsub f fp \<and> y = vsub (vsub x f) gp"
  proof
    assume ax: "axpy B = ref_axpy"
    have "g = vsub x f" "s = vsub x xp" "d = vsub f fp"
      unfolding g_def s_def d_def by (simp_all add: ax ref_axpy_neg lx lf len)
    moreover from this have "y = vsub (vsub x f) gp"
      unfolding y_def by (simp add: ax ref_axpy_neg lx lf len)
    ultimately show "g = vsub x f \<and> s = vsub x xp \<and> d = vsub f fp \<and> y = vsub (vsub x f) gp"
      by simp
  qed
  have gr: "gemm B = ref_gemm \<longrightarrow>
        M' = gram (if aw_type1 a \<noteq> 0 then S' else Y') Y' (nat (aw_l a)) (nat (aw_k a))"
  proof
    assume gm: "gemm B = ref_gemm"
    have "length (if aw_type1 a \<noteq> 0 then S' else Y') = nat (aw_l a * aw_k a)"
      using lc by simp
    then show "M' = gram (if aw_type1 a \<noteq> 0 then S' else Y') Y' (nat (aw_l a)) (nat (aw_k a))"
      unfolding M'_def gm by (rule ref_gemm_gram [OF lp k _ lc(1) lM])
  qed
  obtain a1' st f' A p w where u': "update_accel_params B x f a = Some a1'"
    and e: "aa_apply B mx f x a =
       Some (st, f', a1'\<lparr>aw_iter := aw_iter a + 1, aw_M := Some A, aw_work := Some w,
                          aw_ipiv := Some p\<rparr>)"
    by (rule aa_apply_state [OF ok bo lx lf])
  have "a1' = a1" using u u' by simp
  then obtain a' where e1: "aa_apply B mx f x a = Some (st, f', a')"
    and a': "a' = a1\<lparr>aw_iter := aw_iter a + 1, aw_M := Some A, aw_work := Some w,
                          aw_ipiv := Some p\<rparr>"
    using e by simp
  have kept: "aw_g a' = Some g" "aw_s a' = Some s" "aw_d a' = Some d" "aw_y a' = Some y"
    "aw_Y a' = Some Y'" "aw_S a' = Some S'" "aw_D a' = Some D'"
    by (simp_all add: a' a1_def)
  show ?thesis
    using pM g_def s_def d_def y_def Y'_def [unfolded j_def l_def] S'_def [unfolded j_def l_def]
      D'_def [unfolded j_def l_def] M'_def a1_def u ex gr e1 kept
    by (intro exI conjI) assumption+
qed

theorem history_update_computes_differences_witness:
  "work_ok ex_a1 \<and> blas_ok ref_blas \<and> axpy ref_blas = ref_axpy \<and> gemm ref_blas = ref_gemm \<and>
   length [1, 2 :: real] = nat (aw_l ex_a1) \<and> length [1 / 2, 1 :: real] = nat (aw_l ex_a1) \<and>
   aw_x ex_a1 = Some [2, 4] \<and> aw_f ex_a1 = Some [1, 2] \<and> aw_g_prev ex_a1 = Some [1, 2] \<and>
   aw_Y ex_a1 = Some [1, 2, 0, 0] \<and> aw_S ex_a1 = Some [2, 4, 0, 0] \<and>
   aw_D ex_a1 = Some [1, 2, 0, 0] \<and>
   update_accel_params ref_blas [1, 2] [1 / 2, 1] ex_a1 = Some ex_u2 \<and>
   aw_g ex_u2 = Some (vsub [1, 2] [1 / 2, 1]) \<and> aw_s ex_u2 = Some (vsub [1, 2] [2, 4]) \<and>
   aw_d ex_u2 = Some (vsub [1 / 2, 1] [1, 2]) \<and>
   aw_y ex_u2 = Some (vsub (vsub [1, 2] [1 / 2, 1]) [1, 2]) \<and>
   aw_Y ex_u2 = Some (put_col [1, 2, 0, 0] 2 1 (vsub (vsub [1, 2] [1 / 2, 1]) [1, 2])) \<and>
   aw_S ex_u2 = Some (put_col [2, 4, 0, 0] 2 1 (vsub [1, 2] [2, 4])) \<and>
   aw_D ex_u2 = Some (put_col [1, 2, 0, 0] 2 1 (vsub [1 / 2, 1] [1, 2])) \<and>
   aw_M ex_u2 = Some (gram (put_col [2, 4, 0, 0] 2 1 (vsub [1, 2] [2, 4]))
                  (put_col [1, 2, 0, 0] 2 1 (vsub (vsub [1, 2] [1 / 2, 1]) [1, 2])) 2 2) \<and>
   aw_M ex_u2 = Some [10, - 5, - 5, 5 / 2] \<and>
   work_ok ex_f0 \<and> blas_ok (fl_blas 53) \<and>
   length [9007199254740992 :: real] = nat (aw_l ex_f0) \<and>
   length [1 / 2 :: real] = nat (aw_l ex_f0) \<and>
   update_accel_params (fl_blas 53) [9007199254740992] [1 / 2] ex_f0
     = Some (ex_f1\<lparr>aw_iter := 0\<rparr>) \<and>
   aw_g ex_f1 = Some (axpy (fl_blas 53) 1 (- 1) [1 / 2] [9007199254740992]) \<and>
   aw_g ex_f1 = Some [9007199254740992] \<and> aw_y ex_f1 = Some [9007199254740992] \<and>
   aw_s ex_f1 = Some [9007199254740992] \<and> aw_d ex_f1 = Some [1 / 2] \<and>
   vsub [9007199254740992] [1 / 2 :: real] \<noteq> [9007199254740992]"
proof -
  have h: "length [1, 2 :: real] = nat (aw_l ex_a1)" "length [1 / 2, 1 :: real] = nat (aw_l ex_a1)"
    by (simp_all add: ex_a1_fields)
  have p: "aw_x ex_a1 = Some [2, 4]" "aw_f ex_a1 = Some [1, 2]" "aw_g_prev ex_a1 = Some [1, 2]"
    "aw_Y ex_a1 = Some [1, 2, 0, 0]" "aw_S ex_a1 = Some [2, 4, 0, 0]"
    "aw_D ex_a1 = Some [1, 2, 0, 0]"
    by (simp_all add: ex_a1_def)
  have t: "nat (aw_iter ex_a1 mod aw_k ex_a1) = 1" "nat (aw_l ex_a1) = 2" "nat (aw_k ex_a1) = 2"
    and t1: "aw_type1 ex_a1 \<noteq> 0"
    by (simp_all add: ex_a1_def)
  from history_update_computes_differences [OF work_ok_ex_a1 blas_ok_ref_blas h p, of 10000]
  obtain M g s d y Y' S' D' M' a1 where
    Y': "Y' = put_col [1, 2, 0, 0] (nat (aw_l ex_a1)) (nat (aw_iter ex_a1 mod aw_k ex_a1)) y"
    and S': "S' = put_col [2, 4, 0, 0] (nat (aw_l ex_a1)) (nat (aw_iter ex_a1 mod aw_k ex_a1)) s"
    and D': "D' = put_col [1, 2, 0, 0] (nat (aw_l ex_a1)) (nat (aw_iter ex_a1 mod aw_k ex_a1)) d"
    and a1: "a1 = ex_a1\<lparr>aw_g := Some g, aw_s := Some s, aw_d := Some d, aw_y := Some y,
            aw_Y := Some Y', aw_S := Some S', aw_D := Some D',
            aw_f := Some [1 / 2, 1], aw_x := Some [1, 2], aw_M := Some M',
            aw_g_prev := Some g\<rparr>"
    and u: "update_accel_params ref_blas [1, 2] [1 / 2, 1] ex_a1 = Some a1"
    and ex: "axpy ref_blas = ref_axpy \<longrightarrow>
        g = vsub [1, 2] [1 / 2, 1] \<and> s = vsub [1, 2] [2, 4] \<and> d = vsub [1 / 2, 1] [1, 2] \<and>
        y = vsub (vsub [1, 2] [1 / 2, 1]) [1, 2]"
    and gr: "gemm ref_blas = ref_gemm \<longrightarrow>
        M' = gram (if aw_type1 ex_a1 \<noteq> 0 then S' else Y') Y' (nat (aw_l ex_a1))
               (nat (aw_k ex_a1))"
    by (elim exE conjE) (rule that, assumption+)
  have q: "g = vsub [1, 2] [1 / 2, 1]" "s = vsub [1, 2] [2, 4]" "d = vsub [1 / 2, 1] [1, 2]"
    "y = vsub (vsub [1, 2] [1 / 2, 1]) [1, 2]"
    using ex ref_blas_fields(1) by simp_all
  have m: "M' = gram S' Y' 2 2" using gr ref_blas_fields(2) t1 unfolding t by simp
  have e: "ex_u2 = a1" using u unfolding ex_update2 by simp
  have f: "aw_g ex_u2 = Some (vsub [1, 2] [1 / 2, 1])" "aw_s ex_u2 = Some (vsub [1, 2] [2, 4])"
    "aw_d ex_u2 = Some (vsub [1 / 2, 1] [1, 2])"
    "aw_y ex_u2 = Some (vsub (vsub [1, 2] [1 / 2, 1]) [1, 2])"
    "aw_Y ex_u2 = Some (put_col [1, 2, 0, 0] 2 1 (vsub (vsub [1, 2] [1 / 2, 1]) [1, 2]))"
    "aw_S ex_u2 = Some (put_col [2, 4, 0, 0] 2 1 (vsub [1, 2] [2, 4]))"
    "aw_D ex_u2 = Some (put_col [1, 2, 0, 0] 2 1 (vsub [1 / 2, 1] [1, 2]))"
    "aw_M ex_u2 = Some (gram (put_col [2, 4, 0, 0] 2 1 (vsub [1, 2] [2, 4]))
                  (put_col [1, 2, 0, 0] 2 1 (vsub (vsub [1, 2] [1 / 2, 1]) [1, 2])) 2 2)"
    unfolding e a1 m S' Y' D' t q by simp_all
  have h2: "length [9007199254740992 :: real] = nat (aw_l ex_f0)"
    "length [1 / 2 :: real] = nat (aw_l ex_f0)"
    and p2: "aw_x ex_f0 = Some [0]" "aw_f ex_f0 = Some [0]" "aw_g_prev ex_f0 = Some [0]"
    "aw_Y ex_f0 = Some [0]" "aw_S ex_f0 = Some [0]" "aw_D ex_f0 = Some [0]"
    and l2: "aw_l ex_f0 = 1"
    by (simp_all add: ex_f0_def)
  from history_update_computes_differences [OF work_ok_ex_f0 blas_ok_fl_blas h2 p2,
      of 53 10000]
  obtain g2 s2 d2 y2 Y2 S2 D2 M2 b1 where
    g2: "g2 = axpy (fl_blas 53) (aw_l ex_f0) (- 1) [1 / 2] [9007199254740992]"
    and b1: "b1 = ex_f0\<lparr>aw_g := Some g2, aw_s := Some s2, aw_d := Some d2, aw_y := Some y2,
            aw_Y := Some Y2, aw_S := Some S2, aw_D := Some D2,
            aw_f := Some [1 / 2], aw_x := Some [9007199254740992], aw_M := Some M2,
            aw_g_prev := Some g2\<rparr>"
    and v: "update_accel_params (fl_blas 53) [9007199254740992] [1 / 2] ex_f0 = Some b1"
    by (elim exE conjE) (rule that, assumption+)
  have "ex_f1\<lparr>aw_iter := 0\<rparr> = b1" using v unfolding ex_rounded_update by simp
  then have "aw_g (ex_f1\<lparr>aw_iter := 0\<rparr>) = Some g2" unfolding b1 by simp
  then have g2': "aw_g ex_f1 = Some (axpy (fl_blas 53) 1 (- 1) [1 / 2] [9007199254740992])"
    unfolding g2 l2 by simp
  have r: "aw_g ex_f1 = Some [9007199254740992]" "aw_y ex_f1 = Some [9007199254740992]"
    "aw_s ex_f1 = Some [9007199254740992]" "aw_d ex_f1 = Some [1 / 2]"
    "aw_M ex_u2 = Some [10, - 5, - 5, 5 / 2]"
    "vsub [9007199254740992] [1 / 2 :: real] \<noteq> [9007199254740992]"
    by (simp_all add: ex_f1_def ex_u2_def vsub_def)
  show ?thesis
    using work_ok_ex_a1 blas_ok_ref_blas ref_blas_fields(1,2) h p ex_update2 f
      work_ok_ex_f0 blas_ok_fl_blas h2 ex_rounded_update g2' r
    by (simp only: simp_thms)
qed

text \<open>
  Claim C9. In exact arithmetic, that is with an \<^verbatim>\<open>axpy\<close> that computes
  \<open>y := a x + y\<close> without rounding, every work space the host can reach from
  \<^verbatim>\<open>aa_init\<close> (all allocations satisfied) satisfies \<open>D = S - Y\<close> over the whole
  matrices, and the columns no call has written yet are zero in all three.
\<close>

theorem history_difference_invariant:
  fixes B :: "('a::{ring_1,ord}) blas"
  assumes init: "aa_init al l k t = Some a0" and al: "\<forall>i<14. al i"
    and k: "0 < k" and l: "0 < l"
    and bo: "blas_ok B" and ax: "axpy B = ref_axpy" and cs: "calls_ok l cs"
  shows "\<exists>a Y S D. run B mx cs a0 = Some a \<and>
           aw_Y a = Some Y \<and> aw_S a = Some S \<and> aw_D a = Some D \<and> D = vsub S Y \<and>
           (\<forall>j. length cs \<le> j \<and> j < nat k \<longrightarrow>
              hist_col a j = Some (replicate (nat l) 0, replicate (nat l) 0, replicate (nat l) 0))"
proof -
  note i = aa_init_work_ok [OF init al k l]
  from run_diff_inv [OF i(1) bo ax cs [folded i(4)] i(6,7), of mx]
  obtain a where r: "run B mx cs a0 = Some a" and d: "diff_inv a" and z: "zero_from a"
    and f: "aw_iter a = aw_iter a0 + int (length cs)" "aw_k a = aw_k a0" "aw_l a = aw_l a0"
    by auto
  from d obtain Y S D where p: "aw_Y a = Some Y" "aw_S a = Some S" "aw_D a = Some D"
    "D = vsub S Y"
    by (auto simp: diff_inv_def split: option.splits)
  have "\<forall>j. length cs \<le> j \<and> j < nat k \<longrightarrow>
      hist_col a j = Some (replicate (nat l) 0, replicate (nat l) 0, replicate (nat l) 0)"
    using z by (simp add: zero_from_def f i(2,3,4))
  with r p show ?thesis by blast
qed

theorem history_difference_invariant_witness:
  "aa_init (\<lambda>i. True) 2 2 1 = Some ex_a0 \<and> (0::int) < 2 \<and> blas_ok ref_blas \<and>
   axpy ref_blas = ref_axpy \<and> calls_ok 2 [([2, 4], [1, 2 :: real])] \<and>
   run ref_blas 10000 [([2, 4], [1, 2])] ex_a0 = Some ex_a1 \<and>
   aw_Y ex_a1 = Some [1, 2, 0, 0] \<and> aw_S ex_a1 = Some [2, 4, 0, 0] \<and>
   aw_D ex_a1 = Some [1, 2, 0, 0] \<and> [1, 2, 0, 0] = vsub [2, 4, 0, 0] [1, 2, 0, 0 :: real] \<and>
   hist_col ex_a1 1 = Some ([0, 0], [0, 0], [0, 0])"
proof -
  have al: "\<forall>i<14. (\<lambda>i. True) i" by simp
  have c: "calls_ok 2 [([2, 4], [1, 2 :: real])]" by simp
  have r: "run ref_blas 10000 [([2, 4], [1, 2])] ex_a0 = Some ex_a1"
    by (simp add: ex_call0)
  from history_difference_invariant [OF ex_a0_init al _ _ blas_ok_ref_blas ref_blas_fields(1) c,
      of 10000]
  obtain Y S D where "aw_Y ex_a1 = Some Y" "aw_S ex_a1 = Some S" "aw_D ex_a1 = Some D"
    "D = vsub S Y"
    and z: "\<forall>j. length [([2, 4], [1, 2 :: real])] \<le> j \<and> j < nat 2 \<longrightarrow>
      hist_col ex_a1 j = Some (replicate (nat 2) 0, replicate (nat 2) 0, replicate (nat 2) 0)"
    unfolding r by auto
  then have "[1, 2, 0, 0] = vsub [2, 4, 0, 0] [1, 2, 0, 0 :: real]"
    by (simp add: ex_a1_def)
  moreover from z have "hist_col ex_a1 1 = Some ([0, 0], [0, 0], [0, 0])"
    by (simp add: numeral_2_eq_2)
  ultimately show ?thesis
    using ex_a0_init blas_ok_ref_blas ref_blas_fields(1) c r
    by (simp add: ex_a1_def del: run.simps)
qed

text \<open>
  With rounding the identity fails. For \<open>x = [2^53]\<close> and \<open>f = [1/2]\<close> the residual
  \<open>x - f\<close> rounds to \<open>2^53\<close> in both precisions, so the first call stores
  \<open>y = s = 2^53\<close> and \<open>d = 1/2\<close>: \<open>S - Y\<close> is \<open>0\<close> and \<open>D\<close> is \<open>1/2\<close>. The work
  space \<open>ex_f0\<close> is the one \<^verbatim>\<open>aa_init\<close> returns (lemma \<open>ex_f0_init\<close>).
\<close>

theorem difference_identity_counterexample:
  "aa_apply (fl_blas 53) 10000 [1 / 2] [9007199254740992] ex_f0 = Some (0, [1 / 2], ex_f1) \<and>
   aa_apply (fl_blas 24) 10000 [1 / 2] [9007199254740992] ex_f0 = Some (0, [1 / 2], ex_f1) \<and>
   aw_S ex_f1 = Some [9007199254740992] \<and> aw_Y ex_f1 = Some [9007199254740992] \<and>
   aw_D ex_f1 = Some [1 / 2] \<and>
   vsub [9007199254740992] [9007199254740992] = [0 :: real] \<and>
   [1 / 2 :: real] \<noteq> vsub [9007199254740992] [9007199254740992]"
  by (simp add: ex_rounded_call) (simp add: ex_f1_def vsub_def)

subsection \<open>The circular history\<close>

text \<open>
  Claim C6. The call that finds the counter at \<open>n\<close> writes its differences into
  column \<open>n mod k\<close> of \<open>Y\<close>, \<open>S\<close> and \<open>D\<close>. The column keeps them through the next
  \<open>k - 1\<close> calls and is overwritten by the call after those, the one that finds the
  counter at \<open>n + k\<close>. Here \<open>a1\<close> is the work space after the call at \<open>n\<close> and
  \<open>a2\<close> the one after \<open>length cs\<close> further calls, at most \<open>k\<close> of them.
\<close>

theorem history_is_circular:
  fixes B :: "('a::{zero,one,uminus,ord}) blas"
  assumes ok: "work_ok a" and bo: "blas_ok B"
    and lx: "length x = nat (aw_l a)" and lf: "length f = nat (aw_l a)"
    and first: "aa_apply B mx f x a = Some (st, f', a1)"
    and cs: "calls_ok (aw_l a) cs" and r: "run B mx cs a1 = Some a2"
    and le: "length cs \<le> nat (aw_k a)"
  shows "hist_col a1 (nat (aw_iter a mod aw_k a)) = cur_diffs a1 \<and> cur_diffs a1 \<noteq> None \<and>
         aw_iter a2 = aw_iter a + 1 + int (length cs) \<and>
         hist_col a2 (nat (aw_iter a mod aw_k a)) =
           (if length cs < nat (aw_k a) then cur_diffs a1 else cur_diffs a2)"
proof -
  have k: "0 < aw_k a" and i0: "0 \<le> aw_iter a" using ok by (simp_all add: work_ok_def)
  note h = aa_apply_history [OF ok bo lx lf first]
  have cs1: "calls_ok (aw_l a1) cs" using cs h(4) by simp
  from run_work_ok [OF h(1) bo cs1, of mx] r
  have it2: "aw_iter a2 = aw_iter a + 1 + int (length cs)" by (auto simp: h(2))
  define j where "j = nat (aw_iter a mod aw_k a)"
  have jk: "j < nat (aw_k a1)" unfolding j_def h(3) using k i0 by simp
  have col: "hist_col a2 j = (if length cs < nat (aw_k a) then cur_diffs a1 else cur_diffs a2)"
  proof (cases "length cs < nat (aw_k a)")
    case True
    have "hist_col a2 j = hist_col a1 j"
    proof (rule run_keeps_column [OF h(1) bo cs1 r jk])
      fix t
      assume t: "t < length cs"
      have "nat ((aw_iter a + (1 + int t)) mod aw_k a) \<noteq> nat (aw_iter a mod aw_k a)"
        by (rule mod_shift_neq) (use t True i0 in simp_all)
      then show "nat ((aw_iter a1 + int t) mod aw_k a1) \<noteq> j"
        by (simp add: h(2,3) j_def add.assoc)
    qed
    with True h(6) show ?thesis by (simp add: j_def)
  next
    case False
    with le have len: "length cs = nat (aw_k a)" by simp
    with k obtain ds d where sp: "cs = ds @ [d]"
      by (cases cs rule: rev_cases) auto
    have ds: "calls_ok (aw_l a1) ds" and dl: "length (fst d) = nat (aw_l a1)"
      "length (snd d) = nat (aw_l a1)"
      using cs1 by (simp_all add: sp)
    from run_work_ok [OF h(1) bo ds, of mx]
    obtain b where rb: "run B mx ds a1 = Some b" and okb: "work_ok b"
      and fb: "aw_iter b = aw_iter a1 + int (length ds)" "aw_k b = aw_k a1" "aw_l b = aw_l a1"
      by auto
    obtain stb fb' b' where eb: "aa_apply B mx (snd d) (fst d) b = Some (stb, fb', b')"
      by (rule aa_apply_total [OF okb bo dl [folded fb(3)]])
    have "a2 = b'" using r by (simp add: sp run_snoc rb eb)
    moreover have "hist_col b' (nat (aw_iter b mod aw_k b)) = cur_diffs b'"
      by (rule aa_apply_history(6) [OF okb bo dl [folded fb(3)] eb])
    moreover have "aw_iter b = aw_iter a + aw_k a"
      using fb(1) h(2) len sp k by simp
    then have "nat (aw_iter b mod aw_k b) = j"
      by (simp add: fb(2) h(3) j_def)
    ultimately show ?thesis using False by simp
  qed
  show ?thesis using h(6,7) it2 col by (simp add: j_def)
qed

theorem history_is_circular_witness:
  "work_ok ex_a0 \<and> blas_ok ref_blas \<and> length [2, 4 :: real] = nat (aw_l ex_a0) \<and>
   length [1, 2 :: real] = nat (aw_l ex_a0) \<and>
   aa_apply ref_blas 10000 [1, 2] [2, 4] ex_a0 = Some (0, [1, 2], ex_a1) \<and>
   calls_ok (aw_l ex_a0) [([1, 2], [1 / 2, 1]), ([0, 0], [0, 0 :: real])] \<and>
   run ref_blas 10000 [([1, 2], [1 / 2, 1])] ex_a1 = Some ex_a2 \<and>
   run ref_blas 10000 [([1, 2], [1 / 2, 1]), ([0, 0], [0, 0])] ex_a1 = Some ex_a3 \<and>
   length [([1, 2], [1 / 2, 1]), ([0, 0], [0, 0 :: real])] \<le> nat (aw_k ex_a0) \<and>
   hist_col ex_a1 0 = Some ([1, 2], [2, 4], [1, 2]) \<and>
   hist_col ex_a2 0 = Some ([1, 2], [2, 4], [1, 2]) \<and>
   hist_col ex_a3 0 = Some ([- (1 / 2), - 1], [- 1, - 2], [- (1 / 2), - 1]) \<and>
   aw_iter ex_a3 = 3"
proof -
  have h: "length [2, 4 :: real] = nat (aw_l ex_a0)" "length [1, 2 :: real] = nat (aw_l ex_a0)"
    by (simp_all add: ex_a0_fields)
  have c1: "calls_ok (aw_l ex_a0) [([1, 2], [1 / 2, 1 :: real])]"
    and c2: "calls_ok (aw_l ex_a0) [([1, 2], [1 / 2, 1]), ([0, 0], [0, 0 :: real])]"
    by (simp_all add: ex_a0_fields)
  have r1: "run ref_blas 10000 [([1, 2], [1 / 2, 1])] ex_a1 = Some ex_a2"
    by (simp add: ex_call1)
  have r2: "run ref_blas 10000 [([1, 2], [1 / 2, 1]), ([0, 0], [0, 0])] ex_a1 = Some ex_a3"
    by (simp add: ex_call1 ex_call2)
  have l1: "length [([1, 2], [1 / 2, 1 :: real])] \<le> nat (aw_k ex_a0)"
    and l2: "length [([1, 2], [1 / 2, 1]), ([0, 0], [0, 0 :: real])] \<le> nat (aw_k ex_a0)"
    by (simp_all add: ex_a0_fields)
  have d1: "cur_diffs ex_a1 = Some ([1, 2], [2, 4], [1, 2])"
    and d3: "cur_diffs ex_a3 = Some ([- (1 / 2), - 1], [- 1, - 2], [- (1 / 2), - 1])"
    by (simp_all add: cur_diffs_def ex_a1_def ex_a3_def)
  note t1 = history_is_circular [OF work_ok_ex_a0 blas_ok_ref_blas h ex_call0 c1 r1 l1]
  note t2 = history_is_circular [OF work_ok_ex_a0 blas_ok_ref_blas h ex_call0 c2 r2 l2]
  from t1 t2 show ?thesis
    using work_ok_ex_a0 blas_ok_ref_blas h ex_call0 c2 r1 r2 l2
    by (simp add: ex_a0_fields d1 d3 del: run.simps)
qed

subsection \<open>Construction\<close>

text \<open>
  Claim C8. \<^verbatim>\<open>aa_init\<close> returns the null handle exactly when the allocation of
  the record itself fails (lemma \<open>aa_init_null_iff\<close>). The thirteen buffer
  allocations are not checked: when the record is allocated and the allocation of
  \<open>a->x\<close> fails, the handle is returned with a null \<open>x\<close>, and the first call of
  \<^verbatim>\<open>aa_apply\<close> on it dereferences the null pointer.
\<close>

theorem buffer_allocations_unchecked:
  "aa_init (\<lambda>i. i \<noteq> 1) 2 2 1 = Some (ex_a0\<lparr>aw_x := None\<rparr>) \<and>
   aa_apply ref_blas 10000 [1, 2] [2, 4] (ex_a0\<lparr>aw_x := None\<rparr>) = None"
  by code_simp

end
